theory Spec2Isabelle
  imports Main "HOL-Library.Word" "HOL-Library.Multiset"
begin

unbundle bit_operations_syntax

section \<open>The keypairs command (package cmd)\<close>

subsection \<open>Data of the registry\<close>

text \<open>
  An \<open>identity.ID\<close> is an opaque fixed-size identifier; only its equality is used, so it is
  a natural number here. The command holds identifiers through pointers
  (\<open>*identity.ID\<close>); the pointers decoded from a registry answer are taken to be non-nil.
\<close>

type_synonym identity_ID = nat

text \<open>
  Modelled from the spec: the declaration of \<open>primitive.KeyType\<close> is not among the
  sources; the data model gives a keypair's type as one of Signing and Encryption.
\<close>

datatype KeyType = EncryptionKeyType | SigningKeyType

text \<open>\<open>api.OrgResult\<close>: the fields the command reads, \<open>ID\<close> and \<open>Body.Name\<close>.\<close>

record OrgResult =
  org_ID :: identity_ID
  org_Name :: string

text \<open>
  A listed keypair: the fields the command reads, \<open>PublicKey.ID\<close>,
  \<open>PublicKey.Body.OrgID\<close> and \<open>PublicKey.Body.KeyType\<close>, and its revocation state.
\<close>

record keypair =
  kp_ID :: identity_ID
  kp_OrgID :: identity_ID
  kp_KeyType :: KeyType
  kp_revoked_at :: "nat option"

text \<open>
  Modelled from the spec: the method \<open>Revoked()\<close> is not among the sources; the data model
  says it derives from a nullable revocation timestamp.
\<close>

definition Revoked :: "keypair \<Rightarrow> bool" where
  "Revoked kp = (kp_revoked_at kp \<noteq> None)"

text \<open>
  Go errors. \<open>ExitError\<close> is \<open>errs.NewExitError\<close> with its message, \<open>ErrorString\<close> is
  \<open>errors.New\<close>, \<open>NotExistError\<close> is an error for which \<open>os.IsNotExist\<close> holds, and
  \<open>OtherError\<close> is any other error of a collaborator.
\<close>

datatype error = ExitError string | ErrorString string | NotExistError | OtherError string

subsection \<open>The collaborators and the observable events\<close>

text \<open>
  The command talks to the registry through \<open>api.Client\<close> and reads the configuration
  with \<open>config.LoadConfig\<close>. Neither is among the sources, so the command is modelled over
  an arbitrary collaborator: a record of operations on a state \<open>'s\<close> of the outside
  world, each returning its result and the next state. The maps of the command are keyed
  by pointer, and Go visits the entries of a map in an unspecified order: \<open>range_order n\<close>
  is the order in which the \<open>n\<close>-th \<open>range\<close> loop over a map visits its entries.
\<close>

record 's client =
  LoadConfig :: "'s \<Rightarrow> error option"
  Orgs_List :: "'s \<Rightarrow> (error + OrgResult list) \<times> 's"
  Orgs_GetByName :: "string \<Rightarrow> 's \<Rightarrow> (error + OrgResult option) \<times> 's"
  Keypairs_List :: "identity_ID \<Rightarrow> 's \<Rightarrow> (error + keypair list) \<times> 's"
  Keypairs_Generate :: "identity_ID \<Rightarrow> 's \<Rightarrow> error option \<times> 's"
  range_order :: "nat \<Rightarrow> OrgResult list \<Rightarrow> OrgResult list"

text \<open>
  What an observer of the command sees, in order: the calls to the registry (a keypair
  listing and a generation request with the organization and whether the call returned
  without error) and the lines printed.
\<close>

datatype event =
    CallOrgsList
  | CallOrgsGetByName string
  | CallKeypairsList identity_ID bool
  | CallKeypairsGenerate identity_ID bool
  | Println string

record Context =
  ctx_all :: bool
  ctx_org :: string
  ctx_AppName :: string

subsection \<open>generateKeypairs\<close>

text \<open>
  \<open>hasKey\<close> is \<open>map[identity.ID]map[primitive.KeyType]bool\<close>. Reading a missing key of
  a Go map gives the zero value: the nil map for the outer one, \<open>false\<close> for the inner.
\<close>

type_synonym hasKey = "identity_ID \<rightharpoonup> (KeyType \<rightharpoonup> bool)"

definition hasKeyAt :: "hasKey \<Rightarrow> identity_ID \<Rightarrow> KeyType \<Rightarrow> bool" where
  "hasKeyAt hk oID kt =
     (case hk oID of
        None \<Rightarrow> False
      | Some m \<Rightarrow> (case m kt of None \<Rightarrow> False | Some b \<Rightarrow> b))"

text \<open>The inner loop over the keypairs of one listing.\<close>

fun markKeys :: "keypair list \<Rightarrow> hasKey \<Rightarrow> hasKey" where
  "markKeys [] hk = hk"
| "markKeys (kp # kps) hk =
     (if Revoked kp then markKeys kps hk
      else
        (let oID = kp_OrgID kp;
             inner = (case hk oID of None \<Rightarrow> Map.empty | Some m \<Rightarrow> m)
         in markKeys kps (hk(oID \<mapsto> inner(kp_KeyType kp \<mapsto> True)))))"

text \<open>
  The loop over the target organizations that lists their keypairs: the first listing that
  fails sets \<open>pErr\<close> and leaves the loop.
\<close>

fun listLoop ::
  "'s client \<Rightarrow> OrgResult list \<Rightarrow> hasKey \<Rightarrow> 's \<Rightarrow> event list
     \<Rightarrow> error option \<times> hasKey \<times> 's \<times> event list" where
  "listLoop cl [] hk s tr = (None, hk, s, tr)"
| "listLoop cl (org # rest) hk s tr =
     (case Keypairs_List cl (org_ID org) s of
        (Inl err, s') \<Rightarrow> (Some err, hk, s', tr @ [CallKeypairsList (org_ID org) False])
      | (Inr keypairs, s') \<Rightarrow>
          listLoop cl rest (markKeys keypairs hk) s' (tr @ [CallKeypairsList (org_ID org) True]))"

text \<open>
  The loop that fills \<open>regenOrgs\<close>, a map from the organization's pointer to its name; an
  entry is the organization with the name looked up in \<open>orgNames\<close>, which holds
  \<open>Body.Name\<close> under the same pointer.
\<close>

definition needsRegen :: "hasKey \<Rightarrow> OrgResult \<Rightarrow> bool" where
  "needsRegen hk org =
     (\<not> hasKeyAt hk (org_ID org) EncryptionKeyType \<or> \<not> hasKeyAt hk (org_ID org) SigningKeyType)"

fun regenLoop :: "OrgResult list \<Rightarrow> hasKey \<Rightarrow> OrgResult list" where
  "regenLoop [] hk = []"
| "regenLoop (org # rest) hk =
     (if needsRegen hk org then org # regenLoop rest hk else regenLoop rest hk)"

text \<open>
  The loop that requests the generation: it prints a line, calls the registry, and on an
  error with \<open>rErr\<close> still nil it records the error and leaves the loop.
\<close>

fun genLoop ::
  "'s client \<Rightarrow> OrgResult list \<Rightarrow> error option \<Rightarrow> 's \<Rightarrow> event list
     \<Rightarrow> error option \<times> 's \<times> event list" where
  "genLoop cl [] rErr s tr = (rErr, s, tr)"
| "genLoop cl (org # rest) rErr s tr =
     (let tr1 = tr @ [Println (''Generating signing and encryption keypairs for org: '' @ org_Name org)]
      in case Keypairs_Generate cl (org_ID org) s of
           (err, s') \<Rightarrow>
             (let tr2 = tr1 @ [CallKeypairsGenerate (org_ID org) (err = None)]
              in if err \<noteq> None \<and> rErr = None then (err, s', tr2)
                 else genLoop cl rest rErr s' tr2))"

text \<open>The error for an organization that the registry does not find under its name.\<close>

definition notFound :: "string \<Rightarrow> error" where
  "notFound orgName = ExitError (''Org '' @ [CHR 0x27] @ orgName @ [CHR 0x27] @ '' not found.'')"

text \<open>
  The first part of the command: the target organizations, \<open>subjectOrgs\<close>. With
  \<open>--all\<close> they are the organizations the registry lists, one entry for each (every
  decoded organization has a pointer of its own); otherwise the one organization named
  by \<open>--org\<close>.
\<close>

definition subjectOrgsOf ::
  "'s client \<Rightarrow> Context \<Rightarrow> 's \<Rightarrow> (error + OrgResult list) \<times> 's \<times> event list" where
  "subjectOrgsOf cl ctx s =
     (if ctx_all ctx then
        (case Orgs_List cl s of
           (Inl oErr, s') \<Rightarrow>
             (Inl (ExitError ''Could not retrieve orgs, please try again.''), s', [CallOrgsList])
         | (Inr orgs, s') \<Rightarrow> (Inr orgs, s', [CallOrgsList]))
      else
        (let orgName = ctx_org ctx
         in if orgName = '''' then (Inl (ExitError ''Missing flags: --org.''), s, [])
            else
              (case Orgs_GetByName cl orgName s of
                 (Inr (Some org), s') \<Rightarrow> (Inr [org], s', [CallOrgsGetByName orgName])
               | (_, s') \<Rightarrow>
                   (Inl (notFound orgName), s', [CallOrgsGetByName orgName]))))"

text \<open>The command: its error (\<open>None\<close> is nil), the state it leaves, and what it did.\<close>

definition generateKeypairs ::
  "'s client \<Rightarrow> Context \<Rightarrow> 's \<Rightarrow> error option \<times> 's \<times> event list" where
  "generateKeypairs cl ctx s =
     (case LoadConfig cl s of
        Some err \<Rightarrow> (Some err, s, [])
      | None \<Rightarrow>
          (case subjectOrgsOf cl ctx s of
             (Inl err, s1, tr1) \<Rightarrow> (Some err, s1, tr1)
           | (Inr subjectOrgs, s1, tr1) \<Rightarrow>
               (case listLoop cl (range_order cl 0 subjectOrgs) Map.empty s1 tr1 of
                  (Some pErr, hk, s2, tr2) \<Rightarrow>
                    (Some (ExitError ''Error fetching required context.''), s2, tr2)
                | (None, hk, s2, tr2) \<Rightarrow>
                    (let regenOrgs = regenLoop (range_order cl 1 subjectOrgs) hk
                     in case genLoop cl (range_order cl 2 regenOrgs) None s2 tr2 of
                          (Some rErr, s3, tr3) \<Rightarrow>
                            (Some (ExitError ''Error while regenerating keypairs.''), s3, tr3)
                        | (None, s3, tr3) \<Rightarrow>
                            (None, s3,
                             tr3 @ [Println (if length regenOrgs > 0
                                             then ''Keypair generation successful.''
                                             else ''No keypairs missing.'')])))))"

subsection \<open>generateKeypairsForOrg\<close>

text \<open>
  The error of every failure of \<open>generateKeypairsForOrg\<close>, and the function: an
  \<open>orgID\<close> that is nil is \<open>None\<close>.
\<close>

definition outputErr :: "Context \<Rightarrow> error" where
  "outputErr ctx =
     ExitError (''Could not generate keypairs for org. Run '' @ [CHR 0x27] @ ctx_AppName ctx
                  @ '' keypairs generate'' @ [CHR 0x27] @ '' to fix.'')"

definition generateKeypairsForOrg ::
  "'s client \<Rightarrow> Context \<Rightarrow> identity_ID option \<Rightarrow> bool \<Rightarrow> 's
     \<Rightarrow> error option \<times> 's \<times> event list" where
  "generateKeypairsForOrg cl ctx orgID lookupOrg s =
     (if orgID = None \<and> \<not> lookupOrg then (Some (outputErr ctx), s, [])
      else
        (case (if orgID = None \<and> lookupOrg then
                 (case Orgs_List cl s of
                    (Inl err, s') \<Rightarrow> (None, s', [CallOrgsList])
                  | (Inr orgs, s') \<Rightarrow>
                      (case orgs of
                         [] \<Rightarrow> (None, s', [CallOrgsList])
                       | org # _ \<Rightarrow> (Some (org_ID org), s', [CallOrgsList])))
               else (orgID, s, [])) of
           (None, s1, tr1) \<Rightarrow> (Some (outputErr ctx), s1, tr1)
         | (Some oid, s1, tr1) \<Rightarrow>
             (case Keypairs_Generate cl oid s1 of
                (Some err, s2) \<Rightarrow> (Some (outputErr ctx), s2, tr1 @ [CallKeypairsGenerate oid False])
              | (None, s2) \<Rightarrow> (None, s2, tr1 @ [CallKeypairsGenerate oid True]))))"

section \<open>The daemon's configuration (package main)\<close>

subsection \<open>Files and the operating system\<close>

text \<open>
  \<open>os.FileMode\<close> is a \<open>uint32\<close>: the bit \<open>ModeDir\<close> marks a directory and the nine
  lowest bits, \<open>ModePerm\<close>, are the Unix permissions.
\<close>

type_synonym FileMode = "32 word"

definition ModeDir :: FileMode where
  "ModeDir = 0x80000000"

definition ModePerm :: FileMode where
  "ModePerm = 0x1FF"

definition Perm :: "FileMode \<Rightarrow> FileMode" where
  "Perm m = m AND ModePerm"

record FileInfo =
  Mode :: FileMode

definition IsDir :: "FileInfo \<Rightarrow> bool" where
  "IsDir fi = (Mode fi AND ModeDir \<noteq> 0)"

definition IsNotExist :: "error \<Rightarrow> bool" where
  "IsNotExist err = (case err of NotExistError \<Rightarrow> True | _ \<Rightarrow> False)"

text \<open>\<open>const REQUIRED_PERM = 0700\<close>, octal.\<close>

definition REQUIRED_PERM :: FileMode where
  "REQUIRED_PERM = 0x1C0"

text \<open>
  The operating system as \<open>NewConfig\<close> uses it, over a state \<open>'w\<close> of the machine:
  \<open>os.Getenv\<close>, \<open>os.Stat\<close>, \<open>os.Mkdir\<close>, and the library function \<open>path.Join\<close>, which
  is taken as it comes.
\<close>

record 'w os =
  Getenv :: "string \<Rightarrow> 'w \<Rightarrow> string"
  Stat :: "string \<Rightarrow> 'w \<Rightarrow> error + FileInfo"
  Mkdir :: "string \<Rightarrow> FileMode \<Rightarrow> 'w \<Rightarrow> error option \<times> 'w"
  path_Join :: "string list \<Rightarrow> string"

text \<open>The verb \<open>%d\<close> of \<open>fmt.Sprintf\<close> on an unsigned number: its decimal digits.\<close>

definition digit :: "nat \<Rightarrow> char" where
  "digit d = char_of (48 + d)"

function decimal :: "nat \<Rightarrow> string" where
  "decimal n = (if n < 10 then [digit n] else decimal (n div 10) @ [digit (n mod 10)])"
  by pat_completeness auto
termination
  by (relation "measure id") auto

declare decimal.simps [simp del]

subsection \<open>NewConfig\<close>

record Config =
  ArigatoRoot :: string
  SocketPath :: string
  PidPath :: string
  Version :: string

definition version :: string where
  "version = ''development''"

text \<open>The end of \<open>NewConfig\<close>: the check of the permissions and the result.\<close>

definition checkPerm :: "'w os \<Rightarrow> string \<Rightarrow> FileInfo \<Rightarrow> error + Config" where
  "checkPerm sys arigatoRoot src =
     (let fMode = Mode src
      in if Perm fMode \<noteq> REQUIRED_PERM then
           Inl (ErrorString (arigatoRoot @ '' has permissions '' @ decimal (unat (Perm fMode))
                  @ '' requires '' @ decimal (unat REQUIRED_PERM)))
         else
           Inr \<lparr>ArigatoRoot = arigatoRoot,
                SocketPath = path_Join sys [arigatoRoot, ''daemon.socket''],
                PidPath = path_Join sys [arigatoRoot, ''daemon.pid''],
                Version = version\<rparr>)"

definition rootOf :: "'w os \<Rightarrow> string \<Rightarrow> 'w \<Rightarrow> string" where
  "rootOf sys arigatoRoot w =
     (if length arigatoRoot = 0 then path_Join sys [Getenv sys ''HOME'' w, ''.arigato'']
      else arigatoRoot)"

definition NewConfig :: "'w os \<Rightarrow> string \<Rightarrow> 'w \<Rightarrow> (error + Config) \<times> 'w" where
  "NewConfig sys arigatoRoot0 w =
     (let arigatoRoot = rootOf sys arigatoRoot0 w
      in case Stat sys arigatoRoot w of
           Inl err \<Rightarrow>
             (if \<not> IsNotExist err then (Inl err, w)
              else
                (case Mkdir sys arigatoRoot REQUIRED_PERM w of
                   (Some err1, w1) \<Rightarrow> (Inl err1, w1)
                 | (None, w1) \<Rightarrow>
                     (case Stat sys arigatoRoot w1 of
                        Inl err2 \<Rightarrow> (Inl err2, w1)
                      | Inr src \<Rightarrow> (checkPerm sys arigatoRoot src, w1))))
         | Inr src \<Rightarrow>
             (if \<not> IsDir src then
                (Inl (ErrorString (arigatoRoot @ '' exists but is not a dir'')), w)
              else (checkPerm sys arigatoRoot src, w)))"

section \<open>Observations and concrete collaborators\<close>

subsection \<open>Reading a sequence of events\<close>

text \<open>The generation requests of a sequence of events, and its keypair listings, in order.\<close>

fun gen_events :: "event list \<Rightarrow> (identity_ID \<times> bool) list" where
  "gen_events [] = []"
| "gen_events (CallKeypairsGenerate oid ok # es) = (oid, ok) # gen_events es"
| "gen_events (e # es) = gen_events es"

fun list_events :: "event list \<Rightarrow> (identity_ID \<times> bool) list" where
  "list_events [] = []"
| "list_events (CallKeypairsList oid ok # es) = (oid, ok) # list_events es"
| "list_events (e # es) = list_events es"

text \<open>No keypair listing comes after a generation request.\<close>

fun noListAfterGenerate :: "event list \<Rightarrow> bool" where
  "noListAfterGenerate [] = True"
| "noListAfterGenerate (CallKeypairsGenerate oid ok # es) =
     (list_events es = [] \<and> noListAfterGenerate es)"
| "noListAfterGenerate (e # es) = noListAfterGenerate es"

text \<open>Every \<open>range\<close> loop over a map visits each entry of the map once.\<close>

definition visitsEachOnce :: "'s client \<Rightarrow> bool" where
  "visitsEachOnce cl = (\<forall>n xs. mset (range_order cl n xs) = mset xs)"

subsection \<open>A registry\<close>

text \<open>
  Modelled from the spec: the registry is a remote service, not among the sources. Its
  state is the organizations and the keypairs it stores. \<open>reg_faults\<close> scripts its
  failures: each call takes the head of the list, and fails when it is \<open>True\<close> (an
  empty list is a registry that answers every call). Following the external interface,
  \<open>org.list\<close> gives the organizations, \<open>org.getByName\<close> the first organization of that
  name, \<open>keypairs.list\<close> the keypairs of the organization, revoked ones included, and
  \<open>keypairs.generate\<close> creates a keypair of each type of which the organization has no
  non-revoked keypair.
\<close>

record registry =
  reg_orgs :: "OrgResult list"
  reg_keypairs :: "keypair list"
  reg_faults :: "bool list"

definition unavailable :: error where
  "unavailable = OtherError ''registry unavailable''"

definition nextFault :: "registry \<Rightarrow> bool \<times> registry" where
  "nextFault r =
     (case reg_faults r of
        [] \<Rightarrow> (False, r)
      | f # fs \<Rightarrow> (f, r\<lparr>reg_faults := fs\<rparr>))"

definition hasActive :: "keypair list \<Rightarrow> identity_ID \<Rightarrow> KeyType \<Rightarrow> bool" where
  "hasActive kps oid kt =
     list_ex (\<lambda>kp. kp_OrgID kp = oid \<and> kp_KeyType kp = kt \<and> \<not> Revoked kp) kps"

text \<open>
  Modelled from the spec: an organization is key-complete when it has a non-revoked
  Signing keypair and a non-revoked Encryption keypair.
\<close>

definition isKeyComplete :: "registry \<Rightarrow> identity_ID \<Rightarrow> bool" where
  "isKeyComplete r oid =
     (hasActive (reg_keypairs r) oid SigningKeyType
      \<and> hasActive (reg_keypairs r) oid EncryptionKeyType)"

definition freshKeypairs :: "keypair list \<Rightarrow> identity_ID \<Rightarrow> keypair list" where
  "freshKeypairs kps oid =
     map (\<lambda>kt. \<lparr>kp_ID = length kps + (if kt = SigningKeyType then 0 else 1), kp_OrgID = oid,
                kp_KeyType = kt, kp_revoked_at = None\<rparr>)
       (filter (\<lambda>kt. \<not> hasActive kps oid kt) [SigningKeyType, EncryptionKeyType])"

text \<open>
  Modelled from the spec: the operations of the registry that the command consumes, as a
  client over the state of the registry; \<open>config.LoadConfig\<close> succeeds.
\<close>

definition registryClient :: "(nat \<Rightarrow> OrgResult list \<Rightarrow> OrgResult list) \<Rightarrow> registry client" where
  "registryClient ord =
     \<lparr>LoadConfig = (\<lambda>r. None),
      Orgs_List = (\<lambda>r. case nextFault r of
                          (True, r') \<Rightarrow> (Inl unavailable, r')
                        | (False, r') \<Rightarrow> (Inr (reg_orgs r'), r')),
      Orgs_GetByName = (\<lambda>name r. case nextFault r of
                          (True, r') \<Rightarrow> (Inl unavailable, r')
                        | (False, r') \<Rightarrow> (Inr (find (\<lambda>org. org_Name org = name) (reg_orgs r')), r')),
      Keypairs_List = (\<lambda>oid r. case nextFault r of
                          (True, r') \<Rightarrow> (Inl unavailable, r')
                        | (False, r') \<Rightarrow>
                            (Inr (filter (\<lambda>kp. kp_OrgID kp = oid) (reg_keypairs r')), r')),
      Keypairs_Generate = (\<lambda>oid r. case nextFault r of
                          (True, r') \<Rightarrow> (Some unavailable, r')
                        | (False, r') \<Rightarrow>
                            (None, r'\<lparr>reg_keypairs :=
                                       reg_keypairs r' @ freshKeypairs (reg_keypairs r') oid\<rparr>)),
      range_order = ord\<rparr>"

text \<open>The order of a list, as one of the orders a \<open>range\<close> may take.\<close>

definition inOrder :: "nat \<Rightarrow> OrgResult list \<Rightarrow> OrgResult list" where
  "inOrder n xs = xs"

subsection \<open>A file system\<close>

text \<open>
  A machine for \<open>NewConfig\<close>: the files with their modes, the value of \<open>HOME\<close>, the
  umask of the process, and whether the file system is mounted read-only. \<open>Mkdir\<close> fails
  on a read-only file system and on a path that exists, and otherwise creates the
  directory with the permissions asked for, less the umask. \<open>joinSlash\<close> stands for
  \<open>path.Join\<close> on paths that are already clean.
\<close>

record machine =
  m_files :: "(string \<times> FileMode) list"
  m_home :: string
  m_umask :: FileMode
  m_readonly :: bool

fun joinSlash :: "string list \<Rightarrow> string" where
  "joinSlash [] = []"
| "joinSlash [x] = x"
| "joinSlash (x # xs) = x @ ''/'' @ joinSlash xs"

definition unixOS :: "machine os" where
  "unixOS =
     \<lparr>Getenv = (\<lambda>name m. if name = ''HOME'' then m_home m else []),
      Stat = (\<lambda>p m. case map_of (m_files m) p of
                       None \<Rightarrow> Inl NotExistError
                     | Some md \<Rightarrow> Inr \<lparr>Mode = md\<rparr>),
      Mkdir = (\<lambda>p perm m.
                 if m_readonly m then (Some (OtherError ''read-only file system''), m)
                 else if map_of (m_files m) p \<noteq> None then (Some (OtherError ''file exists''), m)
                 else (None, m\<lparr>m_files := (p, ModeDir OR (perm AND NOT (m_umask m))) # m_files m\<rparr>)),
      path_Join = joinSlash\<rparr>"

subsection \<open>The shape of a run\<close>

text \<open>
  The events of one step of each loop of \<open>generateKeypairs\<close>: a keypair listing, a
  generation request with the line printed before it, and the line that closes a run
  without error.
\<close>

definition listed :: "bool \<Rightarrow> OrgResult \<Rightarrow> event" where
  "listed ok org = CallKeypairsList (org_ID org) ok"

definition announce :: "OrgResult \<Rightarrow> event" where
  "announce org = Println (''Generating signing and encryption keypairs for org: '' @ org_Name org)"

definition generated :: "bool \<Rightarrow> OrgResult \<Rightarrow> event list" where
  "generated ok org = [announce org, CallKeypairsGenerate (org_ID org) ok]"

definition closing :: "OrgResult list \<Rightarrow> event" where
  "closing regenOrgs =
     Println (if length regenOrgs > 0 then ''Keypair generation successful.''
              else ''No keypairs missing.'')"

text \<open>The organizations of an answer of the registry: none when the answer is an error.\<close>

definition answered :: "error + OrgResult list \<Rightarrow> OrgResult list" where
  "answered r = (case r of Inl e \<Rightarrow> [] | Inr orgs \<Rightarrow> orgs)"

subsection \<open>Concrete inputs\<close>

text \<open>Two organizations, a registry that holds them, and the two forms of the command line.\<close>

definition orgA :: OrgResult where
  "orgA = \<lparr>org_ID = 1, org_Name = ''a''\<rparr>"

definition orgB :: OrgResult where
  "orgB = \<lparr>org_ID = 2, org_Name = ''b''\<rparr>"

definition registryOf :: "keypair list \<Rightarrow> bool list \<Rightarrow> registry" where
  "registryOf kps faults = \<lparr>reg_orgs = [orgA, orgB], reg_keypairs = kps, reg_faults = faults\<rparr>"

definition ctxAll :: Context where
  "ctxAll = \<lparr>ctx_all = True, ctx_org = [], ctx_AppName = ''torus''\<rparr>"

definition ctxOrg :: "string \<Rightarrow> Context" where
  "ctxOrg name = \<lparr>ctx_all = False, ctx_org = name, ctx_AppName = ''torus''\<rparr>"

text \<open>Keypairs of the organization 1: a revoked Signing one, an Encryption one, fresh ones.\<close>

definition sigRevoked :: keypair where
  "sigRevoked = \<lparr>kp_ID = 10, kp_OrgID = 1, kp_KeyType = SigningKeyType, kp_revoked_at = Some 5\<rparr>"

definition encActive :: keypair where
  "encActive = \<lparr>kp_ID = 11, kp_OrgID = 1, kp_KeyType = EncryptionKeyType, kp_revoked_at = None\<rparr>"

definition newKeypair :: "identity_ID \<Rightarrow> identity_ID \<Rightarrow> KeyType \<Rightarrow> keypair" where
  "newKeypair i oid kt = \<lparr>kp_ID = i, kp_OrgID = oid, kp_KeyType = kt, kp_revoked_at = None\<rparr>"

text \<open>A machine of the user \<open>u\<close> with umask 022, its files and whether it is read-only.\<close>

definition machineWith :: "(string \<times> FileMode) list \<Rightarrow> bool \<Rightarrow> machine" where
  "machineWith fs ro = \<lparr>m_files = fs, m_home = ''/home/u'', m_umask = 0x12, m_readonly = ro\<rparr>"

section \<open>Properties of NewConfig\<close>

subsection \<open>Permission bits and messages\<close>

lemma decimal_REQUIRED_PERM: "decimal (unat REQUIRED_PERM) = ''448''"
proof -
  have "unat REQUIRED_PERM = 448" by (simp add: REQUIRED_PERM_def)
  moreover have "decimal 448 = ''448''" by code_simp
  ultimately show ?thesis by simp
qed

lemma decimal_493: "decimal 493 = ''493''"
  by code_simp

lemma decimal_320: "decimal 320 = ''320''"
  by code_simp

lemma decimal_384: "decimal 384 = ''384''"
  by code_simp

text \<open>A mode with one of the six group and other bits (octal 077) is not the mode 0700.\<close>

lemma group_other_bits_not_required:
  assumes "m AND 0x3F \<noteq> 0"
  shows "Perm m \<noteq> REQUIRED_PERM"
proof
  assume eq: "Perm m = REQUIRED_PERM"
  have "m AND 0x3F = (m AND ModePerm) AND 0x3F"
    by (simp add: ModePerm_def and.assoc)
  also have "\<dots> = REQUIRED_PERM AND 0x3F"
    using eq by (simp add: Perm_def)
  also have "\<dots> = 0"
    by (simp add: REQUIRED_PERM_def)
  finally show False using assms by simp
qed

lemma NewConfig_existing_dir:
  assumes "Stat sys (rootOf sys arigatoRoot w) w = Inr src" and "IsDir src"
  shows "NewConfig sys arigatoRoot w = (checkPerm sys (rootOf sys arigatoRoot w) src, w)"
  using assms by (simp add: NewConfig_def Let_def)

lemma checkPerm_refuses:
  assumes "Perm (Mode src) \<noteq> REQUIRED_PERM"
  shows "checkPerm sys root src =
           Inl (ErrorString (root @ '' has permissions '' @ decimal (unat (Perm (Mode src)))
                  @ '' requires 448''))"
  using assms by (simp add: checkPerm_def decimal_REQUIRED_PERM)

lemma checkPerm_accepts:
  assumes "Perm (Mode src) = REQUIRED_PERM"
  shows "checkPerm sys root src =
           Inr \<lparr>ArigatoRoot = root, SocketPath = path_Join sys [root, ''daemon.socket''],
                PidPath = path_Join sys [root, ''daemon.pid''], Version = version\<rparr>"
  using assms by (simp add: checkPerm_def)

lemma checkPerm_Inr:
  assumes "checkPerm sys root src = Inr cfg"
  shows "ArigatoRoot cfg = root \<and> SocketPath cfg = path_Join sys [root, ''daemon.socket'']
         \<and> PidPath cfg = path_Join sys [root, ''daemon.pid'']"
  using assms by (auto simp: checkPerm_def Let_def split: if_splits)

lemma NewConfig_Inr:
  assumes "NewConfig sys arigatoRoot w = (Inr cfg, w')"
  shows "\<exists>src. checkPerm sys (rootOf sys arigatoRoot w) src = Inr cfg"
  using assms
  by (auto simp: NewConfig_def Let_def split: sum.splits if_splits prod.splits option.splits)

lemma path_Join_unixOS: "path_Join unixOS = joinSlash"
  by (simp add: unixOS_def)

subsection \<open>An existing root directory\<close>

text \<open>
  Claim C4. When the root directory exists and its mode grants any access to the group or
  to others (one of the bits of octal 077 is set), \<open>NewConfig\<close> returns an error that
  reports the permissions found and the permissions required, returns no \<open>Config\<close>,
  and leaves the machine as it was: nothing is created and nothing is bound.
\<close>

theorem NewConfig_refuses_group_or_other_access:
  assumes "Stat sys (rootOf sys arigatoRoot w) w = Inr src"
      and "IsDir src"
      and "Mode src AND 0x3F \<noteq> 0"
  shows "NewConfig sys arigatoRoot w =
           (Inl (ErrorString (rootOf sys arigatoRoot w @ '' has permissions ''
                   @ decimal (unat (Perm (Mode src))) @ '' requires 448'')), w)"
  using assms
  by (simp add: NewConfig_existing_dir checkPerm_refuses group_other_bits_not_required)

text \<open>The root \<open>/home/u/.arigato\<close> with mode 0755 is refused.\<close>

theorem NewConfig_refuses_group_or_other_access_witness:
  "Stat unixOS (rootOf unixOS [] (machineWith [(''/home/u/.arigato'', 0x800001ED)] False))
        (machineWith [(''/home/u/.arigato'', 0x800001ED)] False) = Inr \<lparr>Mode = 0x800001ED\<rparr>
   \<and> IsDir \<lparr>Mode = 0x800001ED\<rparr>
   \<and> Mode \<lparr>Mode = 0x800001ED\<rparr> AND 0x3F \<noteq> (0 :: FileMode)
   \<and> NewConfig unixOS [] (machineWith [(''/home/u/.arigato'', 0x800001ED)] False) =
        (Inl (ErrorString ''/home/u/.arigato has permissions 493 requires 448''),
         machineWith [(''/home/u/.arigato'', 0x800001ED)] False)"
proof -
  let ?m = "machineWith [(''/home/u/.arigato'', 0x800001ED)] False"
  have h1: "Stat unixOS (rootOf unixOS [] ?m) ?m = Inr \<lparr>Mode = 0x800001ED\<rparr>"
    by (simp add: unixOS_def rootOf_def machineWith_def)
  have h2: "IsDir \<lparr>Mode = 0x800001ED\<rparr>"
    by (simp add: IsDir_def ModeDir_def)
  have h3: "Mode \<lparr>Mode = 0x800001ED\<rparr> AND 0x3F \<noteq> (0 :: FileMode)"
    by simp
  have p: "unat (Perm (0x800001ED :: FileMode)) = 493"
    by (simp add: Perm_def ModePerm_def)
  have r: "rootOf unixOS [] ?m = ''/home/u/.arigato''"
    by (simp add: unixOS_def rootOf_def machineWith_def)
  show ?thesis
    using h1 h2 h3 NewConfig_refuses_group_or_other_access [OF h1 h2 h3]
    by (simp add: p r decimal_493)
qed

text \<open>
  Claim C8. When the root directory exists and its permission bits are anything other than
  0700, \<open>NewConfig\<close> returns the error that reports the permissions; this includes the
  modes that grant less than 0700, such as 0500 and 0600.
\<close>

theorem NewConfig_requires_exactly_0700:
  assumes "Stat sys (rootOf sys arigatoRoot w) w = Inr src"
      and "IsDir src"
      and "Perm (Mode src) \<noteq> REQUIRED_PERM"
  shows "NewConfig sys arigatoRoot w =
           (Inl (ErrorString (rootOf sys arigatoRoot w @ '' has permissions ''
                   @ decimal (unat (Perm (Mode src))) @ '' requires 448'')), w)"
  using assms by (simp add: NewConfig_existing_dir checkPerm_refuses)

text \<open>The root \<open>/run/arigato\<close> is refused with mode 0500 and with mode 0600.\<close>

theorem NewConfig_requires_exactly_0700_witness:
  "Stat unixOS (rootOf unixOS ''/run/arigato'' (machineWith [(''/run/arigato'', 0x80000140)] False))
        (machineWith [(''/run/arigato'', 0x80000140)] False) = Inr \<lparr>Mode = 0x80000140\<rparr>
   \<and> IsDir \<lparr>Mode = 0x80000140\<rparr>
   \<and> Perm (Mode \<lparr>Mode = 0x80000140\<rparr>) \<noteq> REQUIRED_PERM
   \<and> NewConfig unixOS ''/run/arigato'' (machineWith [(''/run/arigato'', 0x80000140)] False) =
        (Inl (ErrorString ''/run/arigato has permissions 320 requires 448''),
         machineWith [(''/run/arigato'', 0x80000140)] False)
   \<and> Stat unixOS (rootOf unixOS ''/run/arigato'' (machineWith [(''/run/arigato'', 0x80000180)] False))
        (machineWith [(''/run/arigato'', 0x80000180)] False) = Inr \<lparr>Mode = 0x80000180\<rparr>
   \<and> IsDir \<lparr>Mode = 0x80000180\<rparr>
   \<and> Perm (Mode \<lparr>Mode = 0x80000180\<rparr>) \<noteq> REQUIRED_PERM
   \<and> NewConfig unixOS ''/run/arigato'' (machineWith [(''/run/arigato'', 0x80000180)] False) =
        (Inl (ErrorString ''/run/arigato has permissions 384 requires 448''),
         machineWith [(''/run/arigato'', 0x80000180)] False)"
proof -
  let ?m = "machineWith [(''/run/arigato'', 0x80000140)] False"
  let ?n = "machineWith [(''/run/arigato'', 0x80000180)] False"
  have r: "rootOf unixOS ''/run/arigato'' ?m = ''/run/arigato''"
          "rootOf unixOS ''/run/arigato'' ?n = ''/run/arigato''"
    by (simp_all add: rootOf_def)
  have h1: "Stat unixOS (rootOf unixOS ''/run/arigato'' ?m) ?m = Inr \<lparr>Mode = 0x80000140\<rparr>"
    by (simp add: unixOS_def rootOf_def machineWith_def)
  have h2: "IsDir \<lparr>Mode = 0x80000140\<rparr>"
    by (simp add: IsDir_def ModeDir_def)
  have h3: "Perm (Mode \<lparr>Mode = 0x80000140\<rparr>) \<noteq> REQUIRED_PERM"
    by (simp add: Perm_def ModePerm_def REQUIRED_PERM_def)
  have p: "unat (Perm (0x80000140 :: FileMode)) = 320"
    by (simp add: Perm_def ModePerm_def)
  have g1: "Stat unixOS (rootOf unixOS ''/run/arigato'' ?n) ?n = Inr \<lparr>Mode = 0x80000180\<rparr>"
    by (simp add: unixOS_def rootOf_def machineWith_def)
  have g2: "IsDir \<lparr>Mode = 0x80000180\<rparr>"
    by (simp add: IsDir_def ModeDir_def)
  have g3: "Perm (Mode \<lparr>Mode = 0x80000180\<rparr>) \<noteq> REQUIRED_PERM"
    by (simp add: Perm_def ModePerm_def REQUIRED_PERM_def)
  have q: "unat (Perm (0x80000180 :: FileMode)) = 384"
    by (simp add: Perm_def ModePerm_def)
  show ?thesis
    using h1 h2 h3 NewConfig_requires_exactly_0700 [OF h1 h2 h3]
      g1 g2 g3 NewConfig_requires_exactly_0700 [OF g1 g2 g3]
    by (simp add: p q r decimal_320 decimal_384)
qed

subsection \<open>The paths of a configuration\<close>

text \<open>
  Claim C10. Whenever \<open>NewConfig\<close> returns a \<open>Config\<close>: if it was called with the empty
  string, the root of the \<open>Config\<close> is \<open>path.Join\<close> of the value of \<open>HOME\<close> and
  \<open>.arigato\<close>, and otherwise it is the string given; the socket path is the root joined
  with \<open>daemon.socket\<close> and the pid path is the root joined with \<open>daemon.pid\<close>.
\<close>

theorem NewConfig_paths:
  assumes "NewConfig sys arigatoRoot w = (Inr cfg, w')"
  shows "(arigatoRoot = [] \<longrightarrow> ArigatoRoot cfg = path_Join sys [Getenv sys ''HOME'' w, ''.arigato''])
         \<and> (arigatoRoot \<noteq> [] \<longrightarrow> ArigatoRoot cfg = arigatoRoot)
         \<and> SocketPath cfg = path_Join sys [ArigatoRoot cfg, ''daemon.socket'']
         \<and> PidPath cfg = path_Join sys [ArigatoRoot cfg, ''daemon.pid'']"
proof -
  from NewConfig_Inr [OF assms] obtain src
    where "checkPerm sys (rootOf sys arigatoRoot w) src = Inr cfg" ..
  from checkPerm_Inr [OF this] show ?thesis
    by (simp add: rootOf_def)
qed

text \<open>With \<open>HOME\<close> at \<open>/home/u\<close> and \<open>/home/u/.arigato\<close> a directory of mode 0700.\<close>

theorem NewConfig_paths_witness:
  "NewConfig unixOS [] (machineWith [(''/home/u/.arigato'', 0x800001C0)] False) =
     (Inr \<lparr>ArigatoRoot = ''/home/u/.arigato'', SocketPath = ''/home/u/.arigato/daemon.socket'',
           PidPath = ''/home/u/.arigato/daemon.pid'', Version = ''development''\<rparr>,
      machineWith [(''/home/u/.arigato'', 0x800001C0)] False)
   \<and> path_Join unixOS [Getenv unixOS ''HOME'' (machineWith [(''/home/u/.arigato'', 0x800001C0)] False),
        ''.arigato''] = ''/home/u/.arigato''
   \<and> path_Join unixOS [''/home/u/.arigato'', ''daemon.socket''] = ''/home/u/.arigato/daemon.socket''
   \<and> path_Join unixOS [''/home/u/.arigato'', ''daemon.pid''] = ''/home/u/.arigato/daemon.pid''"
proof -
  let ?m = "machineWith [(''/home/u/.arigato'', 0x800001C0)] False"
  let ?cfg = "\<lparr>ArigatoRoot = ''/home/u/.arigato'', SocketPath = ''/home/u/.arigato/daemon.socket'',
           PidPath = ''/home/u/.arigato/daemon.pid'', Version = ''development''\<rparr>"
  have run: "NewConfig unixOS [] ?m = (Inr ?cfg, ?m)"
    by (simp add: NewConfig_def Let_def rootOf_def unixOS_def machineWith_def IsDir_def ModeDir_def
        checkPerm_def Perm_def ModePerm_def REQUIRED_PERM_def version_def)
  from NewConfig_paths [OF run] show ?thesis
    using run by simp
qed

subsection \<open>A missing root directory\<close>

text \<open>
  Claim C7, amended. When the root directory does not exist, \<open>NewConfig\<close> asks the
  operating system to create it with mode 0700. If the creation succeeds and the directory
  then reports the permission bits 0700, \<open>NewConfig\<close> returns a \<open>Config\<close> whose root is
  that directory. If the creation fails, \<open>NewConfig\<close> fails with the error of the
  creation.
\<close>

theorem NewConfig_creates_missing_root:
  assumes "Stat sys (rootOf sys arigatoRoot w) w = Inl err"
      and "IsNotExist err"
      and "Mkdir sys (rootOf sys arigatoRoot w) REQUIRED_PERM w = (r, w1)"
  shows "(r = None \<and> Stat sys (rootOf sys arigatoRoot w) w1 = Inr src
            \<and> Perm (Mode src) = REQUIRED_PERM \<longrightarrow>
          NewConfig sys arigatoRoot w =
            (Inr \<lparr>ArigatoRoot = rootOf sys arigatoRoot w,
                  SocketPath = path_Join sys [rootOf sys arigatoRoot w, ''daemon.socket''],
                  PidPath = path_Join sys [rootOf sys arigatoRoot w, ''daemon.pid''],
                  Version = version\<rparr>, w1))
         \<and> (r = Some e \<longrightarrow> NewConfig sys arigatoRoot w = (Inl e, w1))"
  using assms by (simp add: NewConfig_def Let_def checkPerm_accepts)

text \<open>On a machine without the directory, and with umask 022, the directory is created.\<close>

theorem NewConfig_creates_missing_root_witness:
  "Stat unixOS (rootOf unixOS [] (machineWith [] False)) (machineWith [] False) = Inl NotExistError
   \<and> IsNotExist NotExistError
   \<and> Mkdir unixOS (rootOf unixOS [] (machineWith [] False)) REQUIRED_PERM (machineWith [] False) =
        (None, machineWith [(''/home/u/.arigato'', 0x800001C0)] False)
   \<and> Stat unixOS (rootOf unixOS [] (machineWith [] False))
        (machineWith [(''/home/u/.arigato'', 0x800001C0)] False) = Inr \<lparr>Mode = 0x800001C0\<rparr>
   \<and> Perm (Mode \<lparr>Mode = 0x800001C0\<rparr>) = REQUIRED_PERM
   \<and> NewConfig unixOS [] (machineWith [] False) =
        (Inr \<lparr>ArigatoRoot = ''/home/u/.arigato'', SocketPath = ''/home/u/.arigato/daemon.socket'',
              PidPath = ''/home/u/.arigato/daemon.pid'', Version = ''development''\<rparr>,
         machineWith [(''/home/u/.arigato'', 0x800001C0)] False)"
proof -
  let ?m = "machineWith [] False"
  let ?m1 = "machineWith [(''/home/u/.arigato'', 0x800001C0)] False"
  have r: "rootOf unixOS [] ?m = ''/home/u/.arigato''"
    by (simp add: unixOS_def rootOf_def machineWith_def)
  have h1: "Stat unixOS (rootOf unixOS [] ?m) ?m = Inl NotExistError"
    by (simp add: unixOS_def rootOf_def machineWith_def)
  have h2: "IsNotExist NotExistError"
    by (simp add: IsNotExist_def)
  have h3: "Mkdir unixOS (rootOf unixOS [] ?m) REQUIRED_PERM ?m = (None, ?m1)"
    by (simp add: unixOS_def rootOf_def machineWith_def REQUIRED_PERM_def ModeDir_def)
  have h4: "Stat unixOS (rootOf unixOS [] ?m) ?m1 = Inr \<lparr>Mode = 0x800001C0\<rparr>"
    by (simp add: unixOS_def rootOf_def machineWith_def)
  have h5: "Perm (Mode \<lparr>Mode = 0x800001C0\<rparr>) = REQUIRED_PERM"
    by (simp add: Perm_def ModePerm_def REQUIRED_PERM_def)
  show ?thesis
    using h1 h2 h3 h4 h5
      NewConfig_creates_missing_root [OF h1 h2 h3, of "\<lparr>Mode = 0x800001C0\<rparr>"]
    by (simp add: r path_Join_unixOS version_def)
qed

text \<open>
  The claim as it stands fails on a read-only file system: the directory
  \<open>/home/u/.arigato\<close> does not exist, the creation fails, and \<open>NewConfig\<close> returns the
  error of the creation and no \<open>Config\<close>.
\<close>

theorem NewConfig_missing_root_counterexample:
  "Stat unixOS ''/home/u/.arigato'' (machineWith [] True) = Inl NotExistError
   \<and> NewConfig unixOS [] (machineWith [] True) =
        (Inl (OtherError ''read-only file system''), machineWith [] True)"
  by (simp add: NewConfig_def Let_def rootOf_def unixOS_def machineWith_def IsNotExist_def)

section \<open>Properties of the keypairs command\<close>

subsection \<open>The events of the loops\<close>

lemma gen_events_append: "gen_events (xs @ ys) = gen_events xs @ gen_events ys"
  by (induction xs rule: gen_events.induct) simp_all

lemma list_events_append: "list_events (xs @ ys) = list_events xs @ list_events ys"
  by (induction xs rule: list_events.induct) simp_all

lemma regenLoop_filter: "regenLoop os hk = filter (needsRegen hk) os"
  by (induction os) simp_all

lemma listLoop_shape:
  "listLoop cl os hk s tr = (perr, hk', s', tr') \<Longrightarrow>
     \<exists>k\<le>length os.
        tr' = tr @ map (\<lambda>org. CallKeypairsList (org_ID org) True) (take k os)
                 @ (if perr = None then [] else [CallKeypairsList (org_ID (os ! k)) False])
        \<and> (perr = None \<longrightarrow> k = length os) \<and> (perr \<noteq> None \<longrightarrow> k < length os)"
proof (induction os arbitrary: hk s tr)
  case Nil
  then show ?case by auto
next
  case (Cons org rest)
  obtain r s1 where kl: "Keypairs_List cl (org_ID org) s = (r, s1)"
    by (cases "Keypairs_List cl (org_ID org) s")
  show ?case
  proof (cases r)
    case (Inl err)
    with Cons.prems kl have "perr = Some err" "tr' = tr @ [CallKeypairsList (org_ID org) False]"
      by auto
    then show ?thesis
      by (intro exI [of _ 0]) simp
  next
    case (Inr kps)
    with Cons.prems kl have
      "listLoop cl rest (markKeys kps hk) s1 (tr @ [CallKeypairsList (org_ID org) True])
         = (perr, hk', s', tr')"
      by simp
    from Cons.IH [OF this] obtain k where k: "k \<le> length rest"
      "tr' = (tr @ [CallKeypairsList (org_ID org) True])
                @ map (\<lambda>org. CallKeypairsList (org_ID org) True) (take k rest)
                @ (if perr = None then [] else [CallKeypairsList (org_ID (rest ! k)) False])"
      "perr = None \<longrightarrow> k = length rest" "perr \<noteq> None \<longrightarrow> k < length rest"
      by blast
    then show ?thesis
      by (intro exI [of _ "Suc k"]) simp
  qed
qed

lemma genLoop_shape:
  "genLoop cl rs None s tr = (res, s', tr') \<Longrightarrow>
     \<exists>k\<le>length rs.
        tr' = tr @ concat (map (\<lambda>org. [announce org, CallKeypairsGenerate (org_ID org) True]) (take k rs))
                 @ (if res = None then []
                    else [announce (rs ! k), CallKeypairsGenerate (org_ID (rs ! k)) False])
        \<and> (res = None \<longrightarrow> k = length rs) \<and> (res \<noteq> None \<longrightarrow> k < length rs)"
proof (induction rs arbitrary: s tr)
  case Nil
  then show ?case by auto
next
  case (Cons org rest)
  obtain err s1 where g: "Keypairs_Generate cl (org_ID org) s = (err, s1)"
    by (cases "Keypairs_Generate cl (org_ID org) s")
  show ?case
  proof (cases err)
    case (Some e)
    with Cons.prems g have "res = Some e"
      "tr' = tr @ [announce org, CallKeypairsGenerate (org_ID org) False]"
      by (auto simp: announce_def)
    then show ?thesis
      by (intro exI [of _ 0]) simp
  next
    case None
    with Cons.prems g have
      "genLoop cl rest None s1 (tr @ [announce org, CallKeypairsGenerate (org_ID org) True])
         = (res, s', tr')"
      by (simp add: announce_def)
    from Cons.IH [OF this] obtain k where k: "k \<le> length rest"
      "tr' = (tr @ [announce org, CallKeypairsGenerate (org_ID org) True])
               @ concat (map (\<lambda>org. [announce org, CallKeypairsGenerate (org_ID org) True]) (take k rest))
               @ (if res = None then []
                  else [announce (rest ! k), CallKeypairsGenerate (org_ID (rest ! k)) False])"
      "res = None \<longrightarrow> k = length rest" "res \<noteq> None \<longrightarrow> k < length rest"
      by blast
    then show ?thesis
      by (intro exI [of _ "Suc k"]) simp
  qed
qed

lemma noListAfterGenerate_append:
  "gen_events pre = [] \<Longrightarrow> list_events post = [] \<Longrightarrow> noListAfterGenerate (pre @ post)"
proof (induction pre rule: gen_events.induct)
  case 1
  then show ?case
    by (induction post rule: list_events.induct) (simp_all add: list_events_append)
qed simp_all


lemma generateKeypairs_shape:
  assumes cfg: "LoadConfig cl s = None"
      and subj: "subjectOrgsOf cl ctx s = (Inr subjectOrgs, s1, tr1)"
      and run: "generateKeypairs cl ctx s = (res, s', tr)"
  shows "(\<exists>k<length (range_order cl 0 subjectOrgs).
            fst (listLoop cl (range_order cl 0 subjectOrgs) Map.empty s1 tr1) \<noteq> None
            \<and> res = Some (ExitError ''Error fetching required context.'')
            \<and> tr = tr1 @ map (listed True) (take k (range_order cl 0 subjectOrgs))
                       @ [listed False (range_order cl 0 subjectOrgs ! k)])
       \<or> (\<exists>hk s2 tr2 k.
            listLoop cl (range_order cl 0 subjectOrgs) Map.empty s1 tr1 = (None, hk, s2, tr2)
            \<and> k \<le> length (range_order cl 2 (regenLoop (range_order cl 1 subjectOrgs) hk))
            \<and> (k < length (range_order cl 2 (regenLoop (range_order cl 1 subjectOrgs) hk))
                  \<longrightarrow> res = Some (ExitError ''Error while regenerating keypairs.'')
                     \<and> tr = tr1 @ map (listed True) (range_order cl 0 subjectOrgs)
                          @ concat (map (generated True)
                              (take k (range_order cl 2 (regenLoop (range_order cl 1 subjectOrgs) hk))))
                          @ generated False
                              (range_order cl 2 (regenLoop (range_order cl 1 subjectOrgs) hk) ! k))
            \<and> (k = length (range_order cl 2 (regenLoop (range_order cl 1 subjectOrgs) hk))
                  \<longrightarrow> res = None
                     \<and> tr = tr1 @ map (listed True) (range_order cl 0 subjectOrgs)
                          @ concat (map (generated True)
                              (range_order cl 2 (regenLoop (range_order cl 1 subjectOrgs) hk)))
                          @ [closing (regenLoop (range_order cl 1 subjectOrgs) hk)]))"
proof -
  let ?os = "range_order cl 0 subjectOrgs"
  obtain perr hk s2 tr2 where ll: "listLoop cl ?os Map.empty s1 tr1 = (perr, hk, s2, tr2)"
    by (cases "listLoop cl ?os Map.empty s1 tr1")
  from listLoop_shape [OF ll] obtain k where k: "k \<le> length ?os"
    "tr2 = tr1 @ map (\<lambda>org. CallKeypairsList (org_ID org) True) (take k ?os)
             @ (if perr = None then [] else [CallKeypairsList (org_ID (?os ! k)) False])"
    "perr = None \<longrightarrow> k = length ?os" "perr \<noteq> None \<longrightarrow> k < length ?os"
    by blast
  show ?thesis
  proof (cases perr)
    case (Some e)
    with run cfg subj ll have "res = Some (ExitError ''Error fetching required context.'')" "tr = tr2"
      by (simp_all add: generateKeypairs_def)
    with k Some ll have "k < length ?os \<and> fst (listLoop cl ?os Map.empty s1 tr1) \<noteq> None
            \<and> res = Some (ExitError ''Error fetching required context.'')
            \<and> tr = tr1 @ map (listed True) (take k ?os) @ [listed False (?os ! k)]"
      by (simp add: listed_def [abs_def])
    then show ?thesis by blast
  next
    case None
    let ?regen = "regenLoop (range_order cl 1 subjectOrgs) hk"
    let ?rs = "range_order cl 2 ?regen"
    from None k have tr2: "tr2 = tr1 @ map (listed True) ?os"
      by (simp add: listed_def [abs_def])
    obtain rerr s3 tr3 where gl: "genLoop cl ?rs None s2 tr2 = (rerr, s3, tr3)"
      by (cases "genLoop cl ?rs None s2 tr2")
    from genLoop_shape [OF gl] obtain j where j: "j \<le> length ?rs"
      "tr3 = tr2 @ concat (map (\<lambda>org. [announce org, CallKeypairsGenerate (org_ID org) True]) (take j ?rs))
               @ (if rerr = None then []
                  else [announce (?rs ! j), CallKeypairsGenerate (org_ID (?rs ! j)) False])"
      "rerr = None \<longrightarrow> j = length ?rs" "rerr \<noteq> None \<longrightarrow> j < length ?rs"
      by blast
    have "j < length ?rs \<longrightarrow> res = Some (ExitError ''Error while regenerating keypairs.'')
             \<and> tr = tr1 @ map (listed True) ?os @ concat (map (generated True) (take j ?rs))
                      @ generated False (?rs ! j)"
    proof
      assume lt: "j < length ?rs"
      with j have ne: "rerr \<noteq> None" by auto
      then obtain e where e: "rerr = Some e" by auto
      with run cfg subj ll None gl
      have "res = Some (ExitError ''Error while regenerating keypairs.'')" "tr = tr3"
        by (simp_all add: generateKeypairs_def Let_def)
      with j ne tr2 show "res = Some (ExitError ''Error while regenerating keypairs.'')
             \<and> tr = tr1 @ map (listed True) ?os @ concat (map (generated True) (take j ?rs))
                      @ generated False (?rs ! j)"
        by (simp add: generated_def [abs_def])
    qed
    moreover have "j = length ?rs \<longrightarrow> res = None
             \<and> tr = tr1 @ map (listed True) ?os @ concat (map (generated True) ?rs)
                      @ [closing ?regen]"
    proof
      assume eq: "j = length ?rs"
      with j have ne: "rerr = None" by auto
      with run cfg subj ll None gl
      have "res = None" "tr = tr3 @ [closing ?regen]"
        by (simp_all add: generateKeypairs_def Let_def closing_def)
      with j ne tr2 eq show "res = None
             \<and> tr = tr1 @ map (listed True) ?os @ concat (map (generated True) ?rs)
                      @ [closing ?regen]"
        by (simp add: generated_def [abs_def])
    qed
    ultimately show ?thesis
      using ll None j(1) by blast
  qed
qed


lemma events_listed [simp]:
  "gen_events (map (listed b) os) = []"
  "list_events (map (listed b) os) = map (\<lambda>org. (org_ID org, b)) os"
  "filter (\<lambda>e. e = CallOrgsList) (map (listed b) os) = []"
  by (induction os) (simp_all add: listed_def)

lemma events_generated [simp]:
  "gen_events (generated b org) = [(org_ID org, b)]"
  "list_events (generated b org) = []"
  "filter (\<lambda>e. e = CallOrgsList) (generated b org) = []"
  by (simp_all add: generated_def announce_def)

lemma events_all_generated [simp]:
  "gen_events (concat (map (generated b) rs)) = map (\<lambda>org. (org_ID org, b)) rs"
  "list_events (concat (map (generated b) rs)) = []"
  "filter (\<lambda>e. e = CallOrgsList) (concat (map (generated b) rs)) = []"
  by (induction rs) (simp_all add: gen_events_append list_events_append)

lemma events_closing [simp]:
  "gen_events [closing rs] = []" "list_events [closing rs] = []" "closing rs \<noteq> CallOrgsList"
  by (simp_all add: closing_def)

lemma events_one_listed [simp]:
  "gen_events [listed b org] = []" "list_events [listed b org] = [(org_ID org, b)]"
  "listed b org \<noteq> CallOrgsList"
  by (simp_all add: listed_def)

lemma subjectOrgsOf_all:
  assumes "ctx_all ctx" and "Orgs_List cl s = (r, s1)"
  shows "subjectOrgsOf cl ctx s =
           (case r of Inl e \<Rightarrow> Inl (ExitError ''Could not retrieve orgs, please try again.'')
                    | Inr orgs \<Rightarrow> Inr orgs, s1, [CallOrgsList])"
  using assms by (simp add: subjectOrgsOf_def split: sum.splits)

lemma subjectOrgsOf_events:
  assumes "subjectOrgsOf cl ctx s = (r, s1, tr1)"
  shows "gen_events tr1 = [] \<and> list_events tr1 = []"
  using assms
  by (auto simp: subjectOrgsOf_def Let_def split: if_splits prod.splits sum.splits option.splits)

lemma generateKeypairs_early:
  assumes "generateKeypairs cl ctx s = (res, s', tr)"
  shows "(gen_events tr = [] \<and> list_events tr = [])
         \<or> (\<exists>subjectOrgs s1 tr1. LoadConfig cl s = None
               \<and> subjectOrgsOf cl ctx s = (Inr subjectOrgs, s1, tr1))"
proof (cases "LoadConfig cl s")
  case (Some e)
  with assms show ?thesis by (simp add: generateKeypairs_def)
next
  case None
  obtain r s1 tr1 where so: "subjectOrgsOf cl ctx s = (r, s1, tr1)"
    by (cases "subjectOrgsOf cl ctx s")
  show ?thesis
  proof (cases r)
    case (Inl e)
    with assms None so have "tr = tr1" by (simp add: generateKeypairs_def)
    with subjectOrgsOf_events [OF so] show ?thesis by simp
  next
    case (Inr orgs)
    with None so show ?thesis by blast
  qed
qed

text \<open>
  Claim C6. When a keypair listing fails, the command returns the error
  \<open>Error fetching required context.\<close>, the failed listing is the last thing it did, and
  it issued no generation request: none for that organization, and none at all.
\<close>

theorem generateKeypairs_listing_failure_aborts:
  assumes run: "generateKeypairs cl ctx s = (res, s', tr)"
      and failed: "(oid, False) \<in> set (list_events tr)"
  shows "res = Some (ExitError ''Error fetching required context.'')
         \<and> gen_events tr = []
         \<and> last tr = CallKeypairsList oid False"
proof -
  from generateKeypairs_early [OF run] failed obtain subjectOrgs s1 tr1
    where cfg: "LoadConfig cl s = None"
      and subj: "subjectOrgsOf cl ctx s = (Inr subjectOrgs, s1, tr1)"
    by auto
  note ev1 = subjectOrgsOf_events [OF subj]
  from generateKeypairs_shape [OF cfg subj run] show ?thesis
  proof (elim disjE exE conjE)
    fix k
    assume "k < length (range_order cl 0 subjectOrgs)"
      and res: "res = Some (ExitError ''Error fetching required context.'')"
      and tr: "tr = tr1 @ map (listed True) (take k (range_order cl 0 subjectOrgs))
                 @ [listed False (range_order cl 0 subjectOrgs ! k)]"
    from tr ev1 failed have "oid = org_ID (range_order cl 0 subjectOrgs ! k)"
      by (auto simp: list_events_append)
    with res tr ev1 show ?thesis
      by (simp add: gen_events_append listed_def)
  next
    fix hk s2 tr2 k
    let ?rs = "range_order cl 2 (regenLoop (range_order cl 1 subjectOrgs) hk)"
    assume k: "k \<le> length ?rs"
      and a: "k < length ?rs \<longrightarrow> res = Some (ExitError ''Error while regenerating keypairs.'')
                \<and> tr = tr1 @ map (listed True) (range_order cl 0 subjectOrgs)
                     @ concat (map (generated True) (take k ?rs)) @ generated False (?rs ! k)"
      and b: "k = length ?rs \<longrightarrow> res = None
                \<and> tr = tr1 @ map (listed True) (range_order cl 0 subjectOrgs)
                     @ concat (map (generated True) ?rs)
                     @ [closing (regenLoop (range_order cl 1 subjectOrgs) hk)]"
    from k a b ev1 have "snd ` set (list_events tr) \<subseteq> {True}"
      by (cases "k < length ?rs") (auto simp: list_events_append)
    with failed show ?thesis by force
  qed
qed


lemma mset_take_subseteq: "mset (take n xs) \<subseteq># mset xs"
proof -
  have "mset xs = mset (take n xs) + mset (drop n xs)"
    by (metis append_take_drop_id mset_append)
  then show ?thesis by simp
qed

lemma visitsEachOnce_ids:
  assumes "visitsEachOnce cl"
  shows "mset (map org_ID (range_order cl n xs)) = mset (map org_ID xs)"
proof -
  from assms have "mset (range_order cl n xs) = mset xs"
    by (simp add: visitsEachOnce_def)
  then show ?thesis by (metis mset_map)
qed

lemma listed_ids_bounded:
  assumes once: "visitsEachOnce cl"
      and ids: "ids = map org_ID (take n (range_order cl i orgs))"
  shows "mset ids \<subseteq># mset (map org_ID orgs)
         \<and> (distinct (map org_ID orgs) \<longrightarrow> distinct ids)"
proof -
  let ?os = "range_order cl i orgs"
  have eq: "mset (map org_ID ?os) = mset (map org_ID orgs)"
    by (rule visitsEachOnce_ids [OF once])
  have "ids = take n (map org_ID ?os)"
    using ids by (simp add: take_map)
  then have sub: "mset ids \<subseteq># mset (map org_ID ?os)"
    using mset_take_subseteq [of n "map org_ID ?os"] by simp
  have "distinct ids" if "distinct (map org_ID orgs)"
  proof -
    from that eq have "distinct (map org_ID ?os)"
      by (metis mset_eq_imp_distinct_iff)
    with \<open>ids = take n (map org_ID ?os)\<close> show ?thesis
      by (simp add: distinct_take del: take_map)
  qed
  with sub eq show ?thesis by simp
qed

text \<open>
  Claim C5. In a run with \<open>--all\<close> the organizations are enumerated once; the
  keypairs are listed at most once for each organization the registry enumerated (the
  listed identifiers are, with their multiplicities, among the enumerated ones, and are
  distinct when the enumerated ones are); and no keypair listing comes after a
  generation request.
\<close>

theorem generateKeypairs_all_lists_before_generating:
  assumes all: "ctx_all ctx"
      and cfg: "LoadConfig cl s = None"
      and once: "visitsEachOnce cl"
      and orgs: "Orgs_List cl s = (r, s1)"
      and run: "generateKeypairs cl ctx s = (res, s', tr)"
  shows "length (filter (\<lambda>e. e = CallOrgsList) tr) = 1
         \<and> mset (map fst (list_events tr)) \<subseteq># mset (map org_ID (answered r))
         \<and> (distinct (map org_ID (answered r)) \<longrightarrow> distinct (map fst (list_events tr)))
         \<and> noListAfterGenerate tr"
proof (cases r)
  case (Inl e)
  with subjectOrgsOf_all [OF all orgs] run cfg have "tr = [CallOrgsList]"
    by (simp add: generateKeypairs_def)
  then show ?thesis by simp
next
  case (Inr os)
  with subjectOrgsOf_all [OF all orgs]
  have subj: "subjectOrgsOf cl ctx s = (Inr os, s1, [CallOrgsList])"
    by simp
  let ?os = "range_order cl 0 os"
  have "\<exists>n pre post. tr = CallOrgsList # pre @ post
          \<and> gen_events pre = [] \<and> list_events post = []
          \<and> filter (\<lambda>e. e = CallOrgsList) (pre @ post) = []
          \<and> map fst (list_events pre) = map org_ID (take n ?os)"
    using generateKeypairs_shape [OF cfg subj run]
  proof (elim disjE exE conjE)
    fix k
    assume k: "k < length ?os"
      and tr: "tr = [CallOrgsList] @ map (listed True) (take k ?os) @ [listed False (?os ! k)]"
    let ?pre = "map (listed True) (take k ?os) @ [listed False (?os ! k)]"
    have "map fst (list_events ?pre) = map org_ID (take (Suc k) ?os)"
      using k by (simp add: list_events_append take_Suc_conv_app_nth comp_def)
    moreover have "tr = CallOrgsList # ?pre @ []" using tr by simp
    moreover have "gen_events ?pre = []" by (simp add: gen_events_append)
    moreover have "filter (\<lambda>e. e = CallOrgsList) (?pre @ []) = []" by simp
    ultimately show ?thesis
      by (metis list_events.simps(1))
  next
    fix hk s2 tr2 k
    let ?regen = "regenLoop (range_order cl 1 os) hk"
    let ?rs = "range_order cl 2 ?regen"
    assume k: "k \<le> length ?rs"
      and a: "k < length ?rs \<longrightarrow> res = Some (ExitError ''Error while regenerating keypairs.'')
                \<and> tr = [CallOrgsList] @ map (listed True) ?os
                     @ concat (map (generated True) (take k ?rs)) @ generated False (?rs ! k)"
      and b: "k = length ?rs \<longrightarrow> res = None
                \<and> tr = [CallOrgsList] @ map (listed True) ?os
                     @ concat (map (generated True) ?rs) @ [closing ?regen]"
    let ?pre = "map (listed True) ?os"
    have pre: "gen_events ?pre = []" "map fst (list_events ?pre) = map org_ID (take (length ?os) ?os)"
      by (simp_all add: comp_def)
    show ?thesis
    proof (cases "k < length ?rs")
      case True
      let ?post = "concat (map (generated True) (take k ?rs)) @ generated False (?rs ! k)"
      from True a have "tr = CallOrgsList # ?pre @ ?post" by simp
      moreover have "list_events ?post = []" by (simp add: list_events_append)
      moreover have "filter (\<lambda>e. e = CallOrgsList) (?pre @ ?post) = []" by simp
      ultimately show ?thesis using pre by blast
    next
      case False
      let ?post = "concat (map (generated True) ?rs) @ [closing ?regen]"
      from False k b have "tr = CallOrgsList # ?pre @ ?post" by simp
      moreover have "list_events ?post = []" by (simp add: list_events_append)
      moreover have "filter (\<lambda>e. e = CallOrgsList) (?pre @ ?post) = []" by simp
      ultimately show ?thesis using pre by blast
    qed
  qed
  then obtain n pre post where tr: "tr = CallOrgsList # pre @ post"
    and pre: "gen_events pre = []" and post: "list_events post = []"
    and none: "filter (\<lambda>e. e = CallOrgsList) (pre @ post) = []"
    and ids: "map fst (list_events pre) = map org_ID (take n ?os)"
    by blast
  have le: "map fst (list_events tr) = map org_ID (take n ?os)"
    using tr post ids by (simp add: list_events_append)
  have "noListAfterGenerate (pre @ post)"
    by (rule noListAfterGenerate_append [OF pre post])
  then have "noListAfterGenerate tr"
    using tr by simp
  moreover have "length (filter (\<lambda>e. e = CallOrgsList) tr) = 1"
    using tr none by simp
  ultimately show ?thesis
    using listed_ids_bounded [OF once le] Inr by (simp add: answered_def)
qed

subsection \<open>Concrete runs\<close>

lemmas run_defs = generateKeypairs_def subjectOrgsOf_def registryClient_def registryOf_def
  nextFault_def inOrder_def needsRegen_def hasKeyAt_def freshKeypairs_def unavailable_def
  ctxAll_def ctxOrg_def orgA_def orgB_def hasActive_def Revoked_def Let_def
  sigRevoked_def encActive_def newKeypair_def notFound_def

lemma visitsEachOnce_inOrder: "visitsEachOnce (registryClient inOrder)"
  by (simp add: visitsEachOnce_def registryClient_def inOrder_def)

text \<open>
  With the registry answering the enumeration and both listings, and then refusing the
  second call: the listing of the second organization fails and the command stops there.
\<close>

theorem generateKeypairs_listing_failure_aborts_witness:
  "generateKeypairs (registryClient inOrder) ctxAll (registryOf [] [False, False, True]) =
     (Some (ExitError ''Error fetching required context.''), registryOf [] [],
      [CallOrgsList, CallKeypairsList 1 True, CallKeypairsList 2 False])
   \<and> (2, False) \<in> set (list_events [CallOrgsList, CallKeypairsList 1 True, CallKeypairsList 2 False])
   \<and> gen_events [CallOrgsList, CallKeypairsList 1 True, CallKeypairsList 2 False] = []
   \<and> last [CallOrgsList, CallKeypairsList 1 True, CallKeypairsList 2 False] = CallKeypairsList 2 False"
proof -
  have run: "generateKeypairs (registryClient inOrder) ctxAll (registryOf [] [False, False, True]) =
     (Some (ExitError ''Error fetching required context.''), registryOf [] [],
      [CallOrgsList, CallKeypairsList 1 True, CallKeypairsList 2 False])"
    by (simp add: run_defs)
  have failed: "(2, False) \<in> set (list_events [CallOrgsList, CallKeypairsList 1 True, CallKeypairsList 2 False])"
    by simp
  from generateKeypairs_listing_failure_aborts [OF run failed] run failed show ?thesis by simp
qed

text \<open>
  With a registry that answers every call: one enumeration, one listing for each
  organization, then the generation requests.
\<close>

theorem generateKeypairs_all_lists_before_generating_witness:
  "ctx_all ctxAll
   \<and> LoadConfig (registryClient inOrder) (registryOf [] []) = None
   \<and> visitsEachOnce (registryClient inOrder)
   \<and> Orgs_List (registryClient inOrder) (registryOf [] []) = (Inr [orgA, orgB], registryOf [] [])
   \<and> snd (snd (generateKeypairs (registryClient inOrder) ctxAll (registryOf [] []))) =
         [CallOrgsList, CallKeypairsList 1 True, CallKeypairsList 2 True,
          Println ''Generating signing and encryption keypairs for org: a'',
          CallKeypairsGenerate 1 True,
          Println ''Generating signing and encryption keypairs for org: b'',
          CallKeypairsGenerate 2 True,
          Println ''Keypair generation successful.'']
   \<and> distinct (map org_ID (answered (Inr [orgA, orgB])))
   \<and> length (filter (\<lambda>e. e = CallOrgsList)
         [CallOrgsList, CallKeypairsList 1 True, CallKeypairsList 2 True,
          Println ''Generating signing and encryption keypairs for org: a'',
          CallKeypairsGenerate 1 True,
          Println ''Generating signing and encryption keypairs for org: b'',
          CallKeypairsGenerate 2 True,
          Println ''Keypair generation successful.'']) = 1
   \<and> distinct (map fst (list_events
         [CallOrgsList, CallKeypairsList 1 True, CallKeypairsList 2 True,
          Println ''Generating signing and encryption keypairs for org: a'',
          CallKeypairsGenerate 1 True,
          Println ''Generating signing and encryption keypairs for org: b'',
          CallKeypairsGenerate 2 True,
          Println ''Keypair generation successful.'']))
   \<and> noListAfterGenerate
         [CallOrgsList, CallKeypairsList 1 True, CallKeypairsList 2 True,
          Println ''Generating signing and encryption keypairs for org: a'',
          CallKeypairsGenerate 1 True,
          Println ''Generating signing and encryption keypairs for org: b'',
          CallKeypairsGenerate 2 True,
          Println ''Keypair generation successful.'']"
proof -
  let ?r = "registryOf [] []"
  let ?tr = "[CallOrgsList, CallKeypairsList 1 True, CallKeypairsList 2 True,
          Println ''Generating signing and encryption keypairs for org: a'',
          CallKeypairsGenerate 1 True,
          Println ''Generating signing and encryption keypairs for org: b'',
          CallKeypairsGenerate 2 True,
          Println ''Keypair generation successful.'']"
  have h1: "ctx_all ctxAll" by (simp add: ctxAll_def)
  have h2: "LoadConfig (registryClient inOrder) ?r = None" by (simp add: registryClient_def)
  have h4: "Orgs_List (registryClient inOrder) ?r = (Inr [orgA, orgB], ?r)"
    by (simp add: registryClient_def registryOf_def nextFault_def)
  obtain res r' where h5: "generateKeypairs (registryClient inOrder) ctxAll ?r = (res, r', ?tr)"
    by (simp add: run_defs)
  have d: "distinct (map org_ID (answered (Inr [orgA, orgB])))"
    by (simp add: answered_def orgA_def orgB_def)
  from generateKeypairs_all_lists_before_generating [OF h1 h2 visitsEachOnce_inOrder h4 h5]
  show ?thesis
    using h1 h2 visitsEachOnce_inOrder h4 h5 d by simp
qed

subsection \<open>Failures of the generation\<close>

text \<open>
  Claim C1, amended. In a run with \<open>--all\<close> that has listed the keypairs of every
  organization, the generation requests go, one at a time and in the order of the
  \<open>range\<close>, to the organizations that lack a key (\<open>rs\<close>, a permutation of the
  enumerated organizations for which \<open>needsRegen\<close> holds). The first request that fails
  ends the loop: the requests made are the successful ones for the first \<open>k\<close>
  organizations and then the failed one, no request is made for the organizations after
  it, and the command returns the error \<open>Error while regenerating keypairs.\<close>, a
  message without a set of succeeded or of failed organizations. When no request fails,
  every organization of \<open>rs\<close> is requested and the command returns no error.
\<close>

theorem generateKeypairs_all_stops_at_first_failed_generation:
  assumes all: "ctx_all ctx"
      and cfg: "LoadConfig cl s = None"
      and once: "visitsEachOnce cl"
      and orgs: "Orgs_List cl s = (Inr orgs, s1)"
      and lists: "listLoop cl (range_order cl 0 orgs) Map.empty s1 [CallOrgsList] = (None, hk, s2, tr2)"
      and run: "generateKeypairs cl ctx s = (res, s', tr)"
  shows "\<exists>rs k. mset rs = mset (filter (needsRegen hk) orgs) \<and> k \<le> length rs
           \<and> gen_events tr = map (\<lambda>org. (org_ID org, True)) (take k rs)
                               @ (if res = None then [] else [(org_ID (rs ! k), False)])
           \<and> (res = None \<longrightarrow> k = length rs)
           \<and> (res \<noteq> None \<longrightarrow>
                 k < length rs \<and> res = Some (ExitError ''Error while regenerating keypairs.''))"
proof -
  from subjectOrgsOf_all [OF all orgs]
  have subj: "subjectOrgsOf cl ctx s = (Inr orgs, s1, [CallOrgsList])"
    by simp
  let ?rs = "range_order cl 2 (regenLoop (range_order cl 1 orgs) hk)"
  from once have "mset ?rs = mset (filter (needsRegen hk) (range_order cl 1 orgs))"
    by (simp add: visitsEachOnce_def regenLoop_filter)
  also from once have "\<dots> = mset (filter (needsRegen hk) orgs)"
    by (simp add: visitsEachOnce_def)
  finally have ms: "mset ?rs = mset (filter (needsRegen hk) orgs)" .
  from generateKeypairs_shape [OF cfg subj run] lists
  obtain k where k: "k \<le> length ?rs"
    and a: "k < length ?rs \<longrightarrow> res = Some (ExitError ''Error while regenerating keypairs.'')
                \<and> tr = [CallOrgsList] @ map (listed True) (range_order cl 0 orgs)
                     @ concat (map (generated True) (take k ?rs)) @ generated False (?rs ! k)"
    and b: "k = length ?rs \<longrightarrow> res = None
                \<and> tr = [CallOrgsList] @ map (listed True) (range_order cl 0 orgs)
                     @ concat (map (generated True) ?rs)
                     @ [closing (regenLoop (range_order cl 1 orgs) hk)]"
    by auto
  have "gen_events tr = map (\<lambda>org. (org_ID org, True)) (take k ?rs)
                               @ (if res = None then [] else [(org_ID (?rs ! k), False)])
           \<and> (res = None \<longrightarrow> k = length ?rs)
           \<and> (res \<noteq> None \<longrightarrow>
                 k < length ?rs \<and> res = Some (ExitError ''Error while regenerating keypairs.''))"
  proof (cases "k < length ?rs")
    case True
    with a show ?thesis by (simp add: gen_events_append)
  next
    case False
    with k b show ?thesis by (simp add: gen_events_append)
  qed
  with ms k show ?thesis by blast
qed

text \<open>
  The first request, for the organization 1, succeeds and the second, for the
  organization 2, fails.
\<close>

theorem generateKeypairs_all_stops_at_first_failed_generation_witness:
  "ctx_all ctxAll
   \<and> LoadConfig (registryClient inOrder) (registryOf [] [False, False, False, False, True]) = None
   \<and> visitsEachOnce (registryClient inOrder)
   \<and> Orgs_List (registryClient inOrder) (registryOf [] [False, False, False, False, True]) =
        (Inr [orgA, orgB], registryOf [] [False, False, False, True])
   \<and> listLoop (registryClient inOrder) (range_order (registryClient inOrder) 0 [orgA, orgB]) Map.empty
        (registryOf [] [False, False, False, True]) [CallOrgsList] =
        (None, Map.empty, registryOf [] [False, True],
         [CallOrgsList, CallKeypairsList 1 True, CallKeypairsList 2 True])
   \<and> generateKeypairs (registryClient inOrder) ctxAll (registryOf [] [False, False, False, False, True]) =
        (Some (ExitError ''Error while regenerating keypairs.''),
         registryOf [\<lparr>kp_ID = 0, kp_OrgID = 1, kp_KeyType = SigningKeyType, kp_revoked_at = None\<rparr>,
                     \<lparr>kp_ID = 1, kp_OrgID = 1, kp_KeyType = EncryptionKeyType, kp_revoked_at = None\<rparr>] [],
         [CallOrgsList, CallKeypairsList 1 True, CallKeypairsList 2 True,
          Println ''Generating signing and encryption keypairs for org: a'',
          CallKeypairsGenerate 1 True,
          Println ''Generating signing and encryption keypairs for org: b'',
          CallKeypairsGenerate 2 False])
   \<and> (\<exists>rs k. mset rs = mset (filter (needsRegen Map.empty) [orgA, orgB]) \<and> k \<le> length rs
         \<and> [(1, True), (2, False)] = map (\<lambda>org. (org_ID org, True)) (take k rs) @ [(org_ID (rs ! k), False)]
         \<and> k < length rs)"
proof -
  let ?r = "registryOf [] [False, False, False, False, True]"
  have h1: "ctx_all ctxAll" by (simp add: ctxAll_def)
  have h2: "LoadConfig (registryClient inOrder) ?r = None" by (simp add: registryClient_def)
  have h4: "Orgs_List (registryClient inOrder) ?r = (Inr [orgA, orgB], registryOf [] [False, False, False, True])"
    by (simp add: registryClient_def registryOf_def nextFault_def)
  have h5: "listLoop (registryClient inOrder) (range_order (registryClient inOrder) 0 [orgA, orgB]) Map.empty
        (registryOf [] [False, False, False, True]) [CallOrgsList] =
        (None, Map.empty, registryOf [] [False, True],
         [CallOrgsList, CallKeypairsList 1 True, CallKeypairsList 2 True])"
    by (simp add: run_defs)
  have h6: "generateKeypairs (registryClient inOrder) ctxAll ?r =
        (Some (ExitError ''Error while regenerating keypairs.''),
         registryOf [\<lparr>kp_ID = 0, kp_OrgID = 1, kp_KeyType = SigningKeyType, kp_revoked_at = None\<rparr>,
                     \<lparr>kp_ID = 1, kp_OrgID = 1, kp_KeyType = EncryptionKeyType, kp_revoked_at = None\<rparr>] [],
         [CallOrgsList, CallKeypairsList 1 True, CallKeypairsList 2 True,
          Println ''Generating signing and encryption keypairs for org: a'',
          CallKeypairsGenerate 1 True,
          Println ''Generating signing and encryption keypairs for org: b'',
          CallKeypairsGenerate 2 False])"
    by (simp add: run_defs)
  from generateKeypairs_all_stops_at_first_failed_generation [OF h1 h2 visitsEachOnce_inOrder h4 h5 h6]
  show ?thesis
    using h1 h2 visitsEachOnce_inOrder h4 h5 h6 by simp
qed

text \<open>
  The claim as it stands fails when the registry refuses the generation for the first
  organization: the organization 2 lacks its keys too, and no request is made for it; the
  command returns the bare error.
\<close>

theorem generateKeypairs_all_partial_failure_counterexample:
  "generateKeypairs (registryClient inOrder) ctxAll (registryOf [] [False, False, False, True, True]) =
     (Some (ExitError ''Error while regenerating keypairs.''), registryOf [] [True],
      [CallOrgsList, CallKeypairsList 1 True, CallKeypairsList 2 True,
       Println ''Generating signing and encryption keypairs for org: a'',
       CallKeypairsGenerate 1 False])
   \<and> \<not> isKeyComplete (registryOf [] [False, False, False, True, True]) 2
   \<and> gen_events [CallOrgsList, CallKeypairsList 1 True, CallKeypairsList 2 True,
       Println ''Generating signing and encryption keypairs for org: a'',
       CallKeypairsGenerate 1 False] = [(1, False)]"
  by (simp add: run_defs isKeyComplete_def)

subsection \<open>Revoked keypairs\<close>

lemma markKeys_append: "markKeys (xs @ ys) hk = markKeys ys (markKeys xs hk)"
  by (induction xs arbitrary: hk) (simp_all add: Let_def)

lemma hasKeyAt_update:
  "hasKeyAt (hk(o1 \<mapsto> (case hk o1 of None \<Rightarrow> Map.empty | Some m \<Rightarrow> m)(t1 \<mapsto> True))) oid kt
     = (hasKeyAt hk oid kt \<or> (oid = o1 \<and> kt = t1))"
  by (auto simp: hasKeyAt_def split: option.splits)

lemma hasKeyAt_markKeys:
  "hasKeyAt (markKeys kps hk) oid kt
     = (hasKeyAt hk oid kt
        \<or> (\<exists>kp\<in>set kps. \<not> Revoked kp \<and> kp_OrgID kp = oid \<and> kp_KeyType kp = kt))"
proof (induction kps arbitrary: hk)
  case Nil
  then show ?case by simp
next
  case (Cons kp kps)
  show ?case
  proof (cases "Revoked kp")
    case True
    then show ?thesis using Cons.IH [of hk] by auto
  next
    case False
    let ?hk = "hk(kp_OrgID kp \<mapsto>
               (case hk (kp_OrgID kp) of None \<Rightarrow> Map.empty | Some m \<Rightarrow> m)(kp_KeyType kp \<mapsto> True))"
    from False have step: "markKeys (kp # kps) hk = markKeys kps ?hk"
      by (simp add: Let_def)
    have "hasKeyAt (markKeys kps ?hk) oid kt
            = ((hasKeyAt hk oid kt \<or> (oid = kp_OrgID kp \<and> kt = kp_KeyType kp))
               \<or> (\<exists>kp\<in>set kps. \<not> Revoked kp \<and> kp_OrgID kp = oid \<and> kp_KeyType kp = kt))"
      by (simp only: Cons.IH [of ?hk] hasKeyAt_update)
    with False step show ?thesis
      by auto
  qed
qed

lemma hasKeyAt_empty: "\<not> hasKeyAt Map.empty oid kt"
  by (simp add: hasKeyAt_def)

lemma range_singleton:
  assumes "visitsEachOnce cl"
  shows "range_order cl n [x] = [x]"
proof -
  from assms have "mset (range_order cl n [x]) = mset [x]"
    by (simp add: visitsEachOnce_def)
  then show ?thesis by (metis mset_single_iff_right mset.simps(2) mset.simps(1) add_mset_eq_single)
qed

lemma range_nil:
  assumes "visitsEachOnce cl"
  shows "range_order cl n [] = []"
  using assms by (metis mset_zero_iff visitsEachOnce_def mset.simps(1))

text \<open>The run for one organization, when the organization is found and its keypairs are listed.\<close>

lemma generateKeypairs_org:
  assumes cfg: "LoadConfig cl s = None"
      and one: "\<not> ctx_all ctx" "ctx_org ctx \<noteq> []"
      and once: "visitsEachOnce cl"
      and found: "Orgs_GetByName cl (ctx_org ctx) s = (Inr (Some org), s1)"
      and lst: "Keypairs_List cl (org_ID org) s1 = (Inr kps, s2)"
      and gen: "Keypairs_Generate cl (org_ID org) s2 = (err, s3)"
  shows "generateKeypairs cl ctx s =
           (if needsRegen (markKeys kps Map.empty) org then
              (if err \<noteq> None then
                 (Some (ExitError ''Error while regenerating keypairs.''), s3,
                  [CallOrgsGetByName (ctx_org ctx), listed True org] @ generated False org)
               else
                 (None, s3,
                  [CallOrgsGetByName (ctx_org ctx), listed True org] @ generated True org
                    @ [closing [org]]))
            else (None, s2, [CallOrgsGetByName (ctx_org ctx), listed True org, closing []]))"
  using cfg one found lst gen
  by (auto simp: generateKeypairs_def subjectOrgsOf_def Let_def range_singleton [OF once]
      range_nil [OF once] listed_def generated_def announce_def closing_def)

text \<open>
  Claim C3. A revoked keypair in a listing changes nothing in \<open>hasKey\<close>: the result
  is the one for the listing without it. An organization for which every listed keypair of
  a type (Signing, or Encryption) is revoked, and for which \<open>hasKey\<close> did not hold that
  type before, is put in \<open>regenOrgs\<close>. And in a run for one organization whose listing
  contains the keypair \<open>k\<close> and has all keypairs of that type revoked, the command
  issues the generation request for the organization.
\<close>

theorem revoked_keypair_counts_as_absent:
  "(Revoked k \<longrightarrow> markKeys (kps1 @ k # kps2) hk = markKeys (kps1 @ kps2) hk)
   \<and> ((\<forall>kp\<in>set kps. kp_OrgID kp = org_ID org \<and> kp_KeyType kp = kt \<longrightarrow> Revoked kp)
        \<and> \<not> hasKeyAt hk (org_ID org) kt \<and> org \<in> set orgs
        \<longrightarrow> org \<in> set (regenLoop orgs (markKeys kps hk)))
   \<and> (LoadConfig cl s = None \<and> \<not> ctx_all ctx \<and> ctx_org ctx \<noteq> [] \<and> visitsEachOnce cl
        \<and> Orgs_GetByName cl (ctx_org ctx) s = (Inr (Some org), s1)
        \<and> Keypairs_List cl (org_ID org) s1 = (Inr kps, s2)
        \<and> k \<in> set kps
        \<and> (\<forall>kp\<in>set kps. kp_OrgID kp = org_ID org \<and> kp_KeyType kp = kt \<longrightarrow> Revoked kp)
        \<longrightarrow> gen_events (snd (snd (generateKeypairs cl ctx s)))
              = [(org_ID org, fst (Keypairs_Generate cl (org_ID org) s2) = None)])"
proof (intro conjI impI)
  assume "Revoked k"
  then show "markKeys (kps1 @ k # kps2) hk = markKeys (kps1 @ kps2) hk"
    by (simp add: markKeys_append)
next
  assume a: "(\<forall>kp\<in>set kps. kp_OrgID kp = org_ID org \<and> kp_KeyType kp = kt \<longrightarrow> Revoked kp)
        \<and> \<not> hasKeyAt hk (org_ID org) kt \<and> org \<in> set orgs"
  then have "\<not> hasKeyAt (markKeys kps hk) (org_ID org) kt"
    by (auto simp: hasKeyAt_markKeys)
  then have "needsRegen (markKeys kps hk) org"
    by (cases kt) (auto simp: needsRegen_def)
  with a show "org \<in> set (regenLoop orgs (markKeys kps hk))"
    by (simp add: regenLoop_filter)
next
  assume a: "LoadConfig cl s = None \<and> \<not> ctx_all ctx \<and> ctx_org ctx \<noteq> [] \<and> visitsEachOnce cl
        \<and> Orgs_GetByName cl (ctx_org ctx) s = (Inr (Some org), s1)
        \<and> Keypairs_List cl (org_ID org) s1 = (Inr kps, s2)
        \<and> k \<in> set kps
        \<and> (\<forall>kp\<in>set kps. kp_OrgID kp = org_ID org \<and> kp_KeyType kp = kt \<longrightarrow> Revoked kp)"
  then have "\<not> hasKeyAt (markKeys kps Map.empty) (org_ID org) kt"
    by (auto simp: hasKeyAt_markKeys hasKeyAt_empty)
  then have need: "needsRegen (markKeys kps Map.empty) org"
    by (cases kt) (auto simp: needsRegen_def)
  obtain err s3 where gen: "Keypairs_Generate cl (org_ID org) s2 = (err, s3)"
    by (cases "Keypairs_Generate cl (org_ID org) s2")
  from a have cfg: "LoadConfig cl s = None" and one: "\<not> ctx_all ctx" "ctx_org ctx \<noteq> []"
    and once: "visitsEachOnce cl"
    and found: "Orgs_GetByName cl (ctx_org ctx) s = (Inr (Some org), s1)"
    and lst: "Keypairs_List cl (org_ID org) s1 = (Inr kps, s2)"
    by simp_all
  show "gen_events (snd (snd (generateKeypairs cl ctx s)))
              = [(org_ID org, fst (Keypairs_Generate cl (org_ID org) s2) = None)]"
    using need gen
    by (simp add: generateKeypairs_org [OF cfg one once found lst gen] listed_def generated_def
        announce_def closing_def)
qed

text \<open>
  The organization 1 with a revoked Signing keypair and an Encryption keypair.
\<close>

theorem revoked_keypair_counts_as_absent_witness:
  "Revoked sigRevoked
   \<and> markKeys ([] @ sigRevoked # [encActive]) Map.empty = markKeys ([] @ [encActive]) Map.empty
   \<and> filter (\<lambda>kp. kp_OrgID kp = org_ID orgA \<and> kp_KeyType kp = SigningKeyType)
         [sigRevoked, encActive] = [sigRevoked]
   \<and> \<not> hasKeyAt Map.empty (org_ID orgA) SigningKeyType
   \<and> orgA \<in> set [orgA, orgB]
   \<and> orgA \<in> set (regenLoop [orgA, orgB] (markKeys [sigRevoked, encActive] Map.empty))
   \<and> LoadConfig (registryClient inOrder) (registryOf [sigRevoked, encActive] []) = None
   \<and> \<not> ctx_all (ctxOrg ''a'') \<and> ctx_org (ctxOrg ''a'') \<noteq> []
   \<and> visitsEachOnce (registryClient inOrder)
   \<and> Orgs_GetByName (registryClient inOrder) (ctx_org (ctxOrg ''a''))
        (registryOf [sigRevoked, encActive] []) = (Inr (Some orgA), registryOf [sigRevoked, encActive] [])
   \<and> Keypairs_List (registryClient inOrder) (org_ID orgA) (registryOf [sigRevoked, encActive] [])
        = (Inr [sigRevoked, encActive], registryOf [sigRevoked, encActive] [])
   \<and> sigRevoked \<in> set [sigRevoked, encActive]
   \<and> gen_events (snd (snd (generateKeypairs (registryClient inOrder) (ctxOrg ''a'')
          (registryOf [sigRevoked, encActive] [])))) = [(1, True)]"
proof -
  let ?r = "registryOf [sigRevoked, encActive] []"
  have a1: "Revoked sigRevoked" by (simp add: Revoked_def sigRevoked_def)
  have b1: "\<forall>kp\<in>set [sigRevoked, encActive].
         kp_OrgID kp = org_ID orgA \<and> kp_KeyType kp = SigningKeyType \<longrightarrow> Revoked kp"
    by (simp add: Revoked_def sigRevoked_def encActive_def)
  have b0: "filter (\<lambda>kp. kp_OrgID kp = org_ID orgA \<and> kp_KeyType kp = SigningKeyType)
         [sigRevoked, encActive] = [sigRevoked]"
    by (simp add: sigRevoked_def encActive_def orgA_def)
  have b2: "\<not> hasKeyAt Map.empty (org_ID orgA) SigningKeyType" by (simp add: hasKeyAt_def)
  have b3: "orgA \<in> set [orgA, orgB]" by simp
  have c1: "LoadConfig (registryClient inOrder) ?r = None" by (simp add: registryClient_def)
  have c2: "\<not> ctx_all (ctxOrg ''a'')" "ctx_org (ctxOrg ''a'') \<noteq> []" by (simp_all add: ctxOrg_def)
  have c3: "Orgs_GetByName (registryClient inOrder) (ctx_org (ctxOrg ''a'')) ?r = (Inr (Some orgA), ?r)"
    by (simp add: run_defs)
  have c4: "Keypairs_List (registryClient inOrder) (org_ID orgA) ?r
        = (Inr [sigRevoked, encActive], ?r)"
    by (simp add: run_defs)
  have c5: "sigRevoked \<in> set [sigRevoked, encActive]" by simp
  have g: "fst (Keypairs_Generate (registryClient inOrder) (org_ID orgA) ?r) = None"
    by (simp add: run_defs)
  have o: "org_ID orgA = 1" by (simp add: orgA_def)
  from revoked_keypair_counts_as_absent [where k = sigRevoked and ?kps1.0 = "[]" and ?kps2.0 = "[encActive]"
      and hk = Map.empty and kps = "[sigRevoked, encActive]" and org = orgA
      and kt = SigningKeyType and orgs = "[orgA, orgB]" and cl = "registryClient inOrder"
      and s = ?r and ctx = "ctxOrg ''a''" and ?s1.0 = ?r and ?s2.0 = ?r]
  show ?thesis
    using a1 b0 b1 b2 b3 c1 c2 visitsEachOnce_inOrder c3 c4 c5 g o by simp
qed

lemma generateKeypairs_org_list_fails:
  assumes cfg: "LoadConfig cl s = None"
      and one: "\<not> ctx_all ctx" "ctx_org ctx \<noteq> []"
      and once: "visitsEachOnce cl"
      and found: "Orgs_GetByName cl (ctx_org ctx) s = (Inr (Some org), s1)"
      and lst: "Keypairs_List cl (org_ID org) s1 = (Inl e, s2)"
  shows "generateKeypairs cl ctx s =
           (Some (ExitError ''Error fetching required context.''), s2,
            [CallOrgsGetByName (ctx_org ctx), listed False org])"
  using cfg one found lst
  by (simp add: generateKeypairs_def subjectOrgsOf_def Let_def range_singleton [OF once] listed_def)

subsection \<open>Runs against the registry\<close>

lemma nextFault_keeps:
  assumes "nextFault r = (f, r')"
  shows "reg_orgs r' = reg_orgs r \<and> reg_keypairs r' = reg_keypairs r
         \<and> reg_faults r' = tl (reg_faults r) \<and> (f \<longrightarrow> reg_faults r \<noteq> [] \<and> hd (reg_faults r))
         \<and> (\<not> f \<and> reg_faults r \<noteq> [] \<longrightarrow> \<not> hd (reg_faults r))"
  using assms by (auto simp: nextFault_def split: list.splits)

lemma registry_LoadConfig: "LoadConfig (registryClient ord) r = None"
  by (simp add: registryClient_def)

lemma registry_GetByName:
  assumes "nextFault r = (f, r')"
  shows "Orgs_GetByName (registryClient ord) name r =
           (if f then (Inl unavailable, r')
            else (Inr (find (\<lambda>org. org_Name org = name) (reg_orgs r)), r'))"
  using assms nextFault_keeps [OF assms] by (simp add: registryClient_def)

lemma registry_List:
  assumes "nextFault r = (f, r')"
  shows "Keypairs_List (registryClient ord) oid r =
           (if f then (Inl unavailable, r')
            else (Inr (filter (\<lambda>kp. kp_OrgID kp = oid) (reg_keypairs r)), r'))"
  using assms nextFault_keeps [OF assms] by (simp add: registryClient_def)

lemma registry_Generate:
  assumes "nextFault r = (f, r')"
  shows "Keypairs_Generate (registryClient ord) oid r =
           (if f then (Some unavailable, r')
            else (None, r'\<lparr>reg_keypairs := reg_keypairs r @ freshKeypairs (reg_keypairs r) oid\<rparr>))"
  using assms nextFault_keeps [OF assms] by (simp add: registryClient_def)

lemma hasActive_iff:
  "hasActive kps oid kt = (\<exists>kp\<in>set kps. \<not> Revoked kp \<and> kp_OrgID kp = oid \<and> kp_KeyType kp = kt)"
  by (auto simp: hasActive_def list_ex_iff)

lemma needsRegen_listing:
  "needsRegen (markKeys (filter (\<lambda>kp. kp_OrgID kp = org_ID org) kps) Map.empty) org
     = (\<not> (hasActive kps (org_ID org) SigningKeyType \<and> hasActive kps (org_ID org) EncryptionKeyType))"
  by (auto simp: needsRegen_def hasKeyAt_markKeys hasKeyAt_empty hasActive_iff)

lemma hasActive_fresh:
  "hasActive (kps @ freshKeypairs kps oid) oid kt"
proof (cases "hasActive kps oid kt")
  case True
  then show ?thesis by (auto simp: hasActive_iff)
next
  case False
  then have "\<lparr>kp_ID = length kps + (if kt = SigningKeyType then 0 else 1), kp_OrgID = oid,
                kp_KeyType = kt, kp_revoked_at = None\<rparr> \<in> set (freshKeypairs kps oid)"
    by (cases kt) (auto simp: freshKeypairs_def)
  then show ?thesis
    by (auto simp: hasActive_iff Revoked_def intro!: bexI)
qed

lemma registry_run:
  assumes one: "\<not> ctx_all ctx" and name: "ctx_org ctx \<noteq> []"
      and once: "visitsEachOnce (registryClient ord)"
      and n1: "nextFault r = (f1, ra)" and n2: "nextFault ra = (f2, rb)"
      and n3: "nextFault rb = (f3, rc)"
  shows "generateKeypairs (registryClient ord) ctx r =
     (if f1 then (Some (notFound (ctx_org ctx)), ra, [CallOrgsGetByName (ctx_org ctx)])
      else case find (\<lambda>org. org_Name org = ctx_org ctx) (reg_orgs r) of
        None \<Rightarrow> (Some (notFound (ctx_org ctx)), ra, [CallOrgsGetByName (ctx_org ctx)])
      | Some org \<Rightarrow>
          if f2 then (Some (ExitError ''Error fetching required context.''), rb,
                      [CallOrgsGetByName (ctx_org ctx), listed False org])
          else if isKeyComplete r (org_ID org) then
                 (None, rb, [CallOrgsGetByName (ctx_org ctx), listed True org, closing []])
          else if f3 then
                 (Some (ExitError ''Error while regenerating keypairs.''), rc,
                  [CallOrgsGetByName (ctx_org ctx), listed True org] @ generated False org)
          else (None,
                rc\<lparr>reg_keypairs := reg_keypairs r @ freshKeypairs (reg_keypairs r) (org_ID org)\<rparr>,
                [CallOrgsGetByName (ctx_org ctx), listed True org] @ generated True org
                  @ [closing [org]]))"
proof -
  let ?cl = "registryClient ord"
  note k1 = nextFault_keeps [OF n1] and k2 = nextFault_keeps [OF n2]
  have get: "Orgs_GetByName ?cl (ctx_org ctx) r =
           (if f1 then (Inl unavailable, ra)
            else (Inr (find (\<lambda>org. org_Name org = ctx_org ctx) (reg_orgs r)), ra))"
    by (rule registry_GetByName [OF n1])
  show ?thesis
  proof (cases "f1 \<or> find (\<lambda>org. org_Name org = ctx_org ctx) (reg_orgs r) = None")
    case True
    then show ?thesis
      using one name get
      by (auto simp: generateKeypairs_def subjectOrgsOf_def Let_def registry_LoadConfig notFound_def)
  next
    case False
    then obtain org where f1: "\<not> f1"
      and org: "find (\<lambda>org. org_Name org = ctx_org ctx) (reg_orgs r) = Some org"
      by auto
    from get f1 org have found: "Orgs_GetByName ?cl (ctx_org ctx) r = (Inr (Some org), ra)"
      by simp
    show ?thesis
    proof (cases f2)
      case True
      with registry_List [OF n2, of ord "org_ID org"]
      have "Keypairs_List ?cl (org_ID org) ra = (Inl unavailable, rb)" by simp
      from generateKeypairs_org_list_fails [OF registry_LoadConfig one name once found this]
      show ?thesis using f1 org True by simp
    next
      case f2: False
      with registry_List [OF n2, of ord "org_ID org"] k1
      have lst: "Keypairs_List ?cl (org_ID org) ra
                   = (Inr (filter (\<lambda>kp. kp_OrgID kp = org_ID org) (reg_keypairs r)), rb)"
        by simp
      from registry_Generate [OF n3, of ord "org_ID org"] k1 k2
      have gen: "Keypairs_Generate ?cl (org_ID org) rb =
           (if f3 then Some unavailable else None,
            if f3 then rc
            else rc\<lparr>reg_keypairs := reg_keypairs r @ freshKeypairs (reg_keypairs r) (org_ID org)\<rparr>)"
        by simp
      from generateKeypairs_org [OF registry_LoadConfig one name once found lst gen]
      show ?thesis
        using f1 f2 org
        by (simp add: needsRegen_listing isKeyComplete_def)
    qed
  qed
qed

lemma fault_in_first_two:
  assumes "nextFault r = (f1, ra)" and "nextFault ra = (f2, rb)" and "f1 \<or> f2"
  shows "True \<in> set (take 2 (reg_faults r))"
proof (cases "reg_faults r")
  case Nil
  with assms show ?thesis by (auto simp: nextFault_def)
next
  case (Cons a as)
  with assms show ?thesis
    by (cases as) (auto simp: nextFault_def numeral_2_eq_2)
qed

text \<open>A run for one organization that is key-complete requests no generation.\<close>

lemma registry_run_complete:
  assumes one: "\<not> ctx_all ctx" and name: "ctx_org ctx \<noteq> []"
      and once: "visitsEachOnce (registryClient ord)"
      and org: "find (\<lambda>org. org_Name org = ctx_org ctx) (reg_orgs r) = Some org"
      and complete: "isKeyComplete r (org_ID org)"
      and run: "generateKeypairs (registryClient ord) ctx r = (res, r', tr)"
  shows "gen_events tr = [] \<and> reg_keypairs r' = reg_keypairs r
         \<and> (True \<notin> set (take 2 (reg_faults r)) \<longrightarrow> res = None)"
proof -
  obtain f1 ra where n1: "nextFault r = (f1, ra)" by (cases "nextFault r")
  obtain f2 rb where n2: "nextFault ra = (f2, rb)" by (cases "nextFault ra")
  obtain f3 rc where n3: "nextFault rb = (f3, rc)" by (cases "nextFault rb")
  note k1 = nextFault_keeps [OF n1] and k2 = nextFault_keeps [OF n2]
  from registry_run [OF one name once n1 n2 n3] run org complete
  have "(res, r', tr) =
     (if f1 then (Some (notFound (ctx_org ctx)), ra, [CallOrgsGetByName (ctx_org ctx)])
      else if f2 then (Some (ExitError ''Error fetching required context.''), rb,
                      [CallOrgsGetByName (ctx_org ctx), listed False org])
      else (None, rb, [CallOrgsGetByName (ctx_org ctx), listed True org, closing []]))"
    by simp
  then have "gen_events tr = [] \<and> reg_keypairs r' = reg_keypairs r \<and> (\<not> f1 \<and> \<not> f2 \<longrightarrow> res = None)"
    using k1 k2 by (auto simp: listed_def closing_def split: if_splits)
  with fault_in_first_two [OF n1 n2] show ?thesis by blast
qed

subsection \<open>Calling the command twice\<close>

text \<open>
  Claim C2, amended. Against the registry, when a first call of the command for one
  organization returns without error, and a second call follows it with no revocation in
  between: the two calls issue at most one generation request in total, the second call
  issues none, the organization is key-complete after the first call and after the
  second, and the second call returns without error when the registry answers its lookup
  of the organization and its listing of the keypairs.
\<close>

theorem generateKeypairs_twice_after_success:
  assumes one: "\<not> ctx_all ctx"
      and once: "visitsEachOnce (registryClient ord)"
      and run1: "generateKeypairs (registryClient ord) ctx r = (None, r1, tr1)"
      and run2: "generateKeypairs (registryClient ord) ctx r1 = (res2, r2, tr2)"
  shows "\<exists>org. find (\<lambda>org. org_Name org = ctx_org ctx) (reg_orgs r) = Some org
           \<and> length (gen_events (tr1 @ tr2)) \<le> 1
           \<and> gen_events tr2 = []
           \<and> isKeyComplete r1 (org_ID org)
           \<and> isKeyComplete r2 (org_ID org)
           \<and> (True \<notin> set (take 2 (reg_faults r1)) \<longrightarrow> res2 = None)"
proof -
  let ?cl = "registryClient ord"
  have name: "ctx_org ctx \<noteq> []"
  proof
    assume "ctx_org ctx = []"
    with one run1 show False
      by (simp add: generateKeypairs_def subjectOrgsOf_def registry_LoadConfig)
  qed
  obtain f1 ra where n1: "nextFault r = (f1, ra)" by (cases "nextFault r")
  obtain f2 rb where n2: "nextFault ra = (f2, rb)" by (cases "nextFault ra")
  obtain f3 rc where n3: "nextFault rb = (f3, rc)" by (cases "nextFault rb")
  note k1 = nextFault_keeps [OF n1] and k2 = nextFault_keeps [OF n2]
    and k3 = nextFault_keeps [OF n3]
  note first = registry_run [OF one name once n1 n2 n3, unfolded run1]
  from first obtain org where org: "find (\<lambda>org. org_Name org = ctx_org ctx) (reg_orgs r) = Some org"
    by (cases "find (\<lambda>org. org_Name org = ctx_org ctx) (reg_orgs r)") (auto split: if_splits)
  let ?fresh = "reg_keypairs r @ freshKeypairs (reg_keypairs r) (org_ID org)"
  from first org have r1: "(r1 = rb \<and> isKeyComplete r (org_ID org) \<and> gen_events tr1 = [])
      \<or> (r1 = rc\<lparr>reg_keypairs := ?fresh\<rparr> \<and> gen_events tr1 = [(org_ID org, True)])"
    by (auto simp: listed_def closing_def generated_def announce_def split: if_splits)
  then have orgs1: "reg_orgs r1 = reg_orgs r"
    using k1 k2 k3 by auto
  from r1 have complete1: "isKeyComplete r1 (org_ID org)"
    using k1 k2 by (auto simp: isKeyComplete_def hasActive_fresh)
  from r1 have gens1: "length (gen_events tr1) \<le> 1"
    by auto
  from org orgs1 have org1: "find (\<lambda>org. org_Name org = ctx_org ctx) (reg_orgs r1) = Some org"
    by simp
  from registry_run_complete [OF one name once org1 complete1 run2]
  have second: "gen_events tr2 = []" "reg_keypairs r2 = reg_keypairs r1"
    "True \<notin> set (take 2 (reg_faults r1)) \<longrightarrow> res2 = None"
    by simp_all
  from second(2) complete1 have "isKeyComplete r2 (org_ID org)"
    by (simp add: isKeyComplete_def)
  with org gens1 second complete1 show ?thesis
    by (simp add: gen_events_append)
qed

text \<open>
  The organization 1 without keypairs, and a registry that answers every call.
\<close>

theorem generateKeypairs_twice_after_success_witness:
  "\<not> ctx_all (ctxOrg ''a'')
   \<and> visitsEachOnce (registryClient inOrder)
   \<and> generateKeypairs (registryClient inOrder) (ctxOrg ''a'') (registryOf [] []) =
     (None, registryOf [newKeypair 0 1 SigningKeyType, newKeypair 1 1 EncryptionKeyType] [],
      [CallOrgsGetByName ''a'', CallKeypairsList 1 True,
       Println ''Generating signing and encryption keypairs for org: a'',
       CallKeypairsGenerate 1 True,
       Println ''Keypair generation successful.''])
   \<and> generateKeypairs (registryClient inOrder) (ctxOrg ''a'')
        (registryOf [newKeypair 0 1 SigningKeyType, newKeypair 1 1 EncryptionKeyType] []) =
     (None, registryOf [newKeypair 0 1 SigningKeyType, newKeypair 1 1 EncryptionKeyType] [],
      [CallOrgsGetByName ''a'', CallKeypairsList 1 True, Println ''No keypairs missing.''])
   \<and> (\<exists>org. find (\<lambda>org. org_Name org = ctx_org (ctxOrg ''a'')) (reg_orgs (registryOf [] [])) = Some org
         \<and> isKeyComplete (registryOf [newKeypair 0 1 SigningKeyType, newKeypair 1 1 EncryptionKeyType] [])
              (org_ID org))"
proof -
  let ?r1 = "registryOf [newKeypair 0 1 SigningKeyType, newKeypair 1 1 EncryptionKeyType] []"
  have h1: "\<not> ctx_all (ctxOrg ''a'')" by (simp add: ctxOrg_def)
  have run1: "generateKeypairs (registryClient inOrder) (ctxOrg ''a'') (registryOf [] []) =
     (None, ?r1,
      [CallOrgsGetByName ''a'', CallKeypairsList 1 True,
       Println ''Generating signing and encryption keypairs for org: a'',
       CallKeypairsGenerate 1 True,
       Println ''Keypair generation successful.''])"
    by (simp add: run_defs)
  have run2: "generateKeypairs (registryClient inOrder) (ctxOrg ''a'') ?r1 =
     (None, ?r1,
      [CallOrgsGetByName ''a'', CallKeypairsList 1 True, Println ''No keypairs missing.''])"
    by (simp add: run_defs)
  from generateKeypairs_twice_after_success [OF h1 visitsEachOnce_inOrder run1 run2]
  show ?thesis
    using h1 visitsEachOnce_inOrder run1 run2 by blast
qed

text \<open>
  The claim as it stands fails when the registry refuses the generation request of the
  first call: the organization is not key-complete after the first call, and the second
  call issues a second generation request.
\<close>

theorem generateKeypairs_twice_counterexample:
  "generateKeypairs (registryClient inOrder) (ctxOrg ''a'') (registryOf [] [False, False, True]) =
     (Some (ExitError ''Error while regenerating keypairs.''), registryOf [] [],
      [CallOrgsGetByName ''a'', CallKeypairsList 1 True,
       Println ''Generating signing and encryption keypairs for org: a'',
       CallKeypairsGenerate 1 False])
   \<and> \<not> isKeyComplete (registryOf [] []) 1
   \<and> generateKeypairs (registryClient inOrder) (ctxOrg ''a'') (registryOf [] []) =
     (None, registryOf [newKeypair 0 1 SigningKeyType, newKeypair 1 1 EncryptionKeyType] [],
      [CallOrgsGetByName ''a'', CallKeypairsList 1 True,
       Println ''Generating signing and encryption keypairs for org: a'',
       CallKeypairsGenerate 1 True,
       Println ''Keypair generation successful.''])
   \<and> gen_events ([CallOrgsGetByName ''a'', CallKeypairsList 1 True,
         Println ''Generating signing and encryption keypairs for org: a'',
         CallKeypairsGenerate 1 False]
        @ [CallOrgsGetByName ''a'', CallKeypairsList 1 True,
         Println ''Generating signing and encryption keypairs for org: a'',
         CallKeypairsGenerate 1 True,
         Println ''Keypair generation successful.'']) = [(1, False), (1, True)]"
  by (simp add: run_defs isKeyComplete_def)

subsection \<open>generateKeypairsForOrg\<close>

text \<open>
  Claim C9. \<open>generateKeypairsForOrg\<close> with an identifier issues the generation
  request for it and nothing else: no listing of keypairs, whatever keypairs the
  organization has. Without an identifier and with \<open>lookupOrg\<close>, when the registry
  enumerates at least one organization, it issues the enumeration and then the generation
  request for the first organization. Without an identifier and without \<open>lookupOrg\<close> it
  returns its error and issues nothing.
\<close>

theorem generateKeypairsForOrg_generates_unconditionally:
  "(Keypairs_Generate cl oid s = (err, s') \<longrightarrow>
      generateKeypairsForOrg cl ctx (Some oid) lookupOrg s =
        (if err = None then None else Some (outputErr ctx), s',
         [CallKeypairsGenerate oid (err = None)]))
   \<and> (Orgs_List cl s = (Inr (org # orgs), s1) \<and> Keypairs_Generate cl (org_ID org) s1 = (err, s') \<longrightarrow>
      generateKeypairsForOrg cl ctx None True s =
        (if err = None then None else Some (outputErr ctx), s',
         [CallOrgsList, CallKeypairsGenerate (org_ID org) (err = None)]))
   \<and> generateKeypairsForOrg cl ctx None False s = (Some (outputErr ctx), s, [])"
  by (auto simp: generateKeypairsForOrg_def split: option.splits)

text \<open>
  The organization 1 is key-complete, and the request is issued all the same.
\<close>

theorem generateKeypairsForOrg_generates_unconditionally_witness:
  "Keypairs_Generate (registryClient inOrder) 1
       (registryOf [newKeypair 0 1 SigningKeyType, newKeypair 1 1 EncryptionKeyType] []) =
     (None, registryOf [newKeypair 0 1 SigningKeyType, newKeypair 1 1 EncryptionKeyType] [])
   \<and> isKeyComplete (registryOf [newKeypair 0 1 SigningKeyType, newKeypair 1 1 EncryptionKeyType] []) 1
   \<and> generateKeypairsForOrg (registryClient inOrder) ctxAll (Some 1) False
       (registryOf [newKeypair 0 1 SigningKeyType, newKeypair 1 1 EncryptionKeyType] []) =
     (None, registryOf [newKeypair 0 1 SigningKeyType, newKeypair 1 1 EncryptionKeyType] [],
      [CallKeypairsGenerate 1 True])
   \<and> Orgs_List (registryClient inOrder)
       (registryOf [newKeypair 0 1 SigningKeyType, newKeypair 1 1 EncryptionKeyType] []) =
     (Inr (orgA # [orgB]), registryOf [newKeypair 0 1 SigningKeyType, newKeypair 1 1 EncryptionKeyType] [])
   \<and> Keypairs_Generate (registryClient inOrder) (org_ID orgA)
       (registryOf [newKeypair 0 1 SigningKeyType, newKeypair 1 1 EncryptionKeyType] []) =
     (None, registryOf [newKeypair 0 1 SigningKeyType, newKeypair 1 1 EncryptionKeyType] [])
   \<and> generateKeypairsForOrg (registryClient inOrder) ctxAll None True
       (registryOf [newKeypair 0 1 SigningKeyType, newKeypair 1 1 EncryptionKeyType] []) =
     (None, registryOf [newKeypair 0 1 SigningKeyType, newKeypair 1 1 EncryptionKeyType] [],
      [CallOrgsList, CallKeypairsGenerate 1 True])"
proof -
  let ?r = "registryOf [newKeypair 0 1 SigningKeyType, newKeypair 1 1 EncryptionKeyType] []"
  have g: "Keypairs_Generate (registryClient inOrder) 1 ?r = (None, ?r)"
    by (simp add: run_defs)
  have g': "Keypairs_Generate (registryClient inOrder) (org_ID orgA) ?r = (None, ?r)"
    by (simp add: run_defs)
  have l: "Orgs_List (registryClient inOrder) ?r = (Inr (orgA # [orgB]), ?r)"
    by (simp add: run_defs)
  have c: "isKeyComplete ?r 1"
    by (simp add: run_defs isKeyComplete_def)
  have o: "org_ID orgA = 1" by (simp add: orgA_def)
  from generateKeypairsForOrg_generates_unconditionally [where cl = "registryClient inOrder" and oid = 1 and s = ?r and err = None
      and s' = ?r and ctx = ctxAll and lookupOrg = False and org = orgA and orgs = "[orgB]"
      and ?s1.0 = ?r]
  show ?thesis
    using g g' l c o by simp
qed

end
